theory Spec2Isabelle
  imports Complex_Main "HOL-Library.While_Combinator" "HOL-Library.Word"
    "HOL-Library.Monad_Syntax"
begin

section \<open>FLIP fluid solver (8-FLIP/Fluid.cpp)\<close>

text \<open>
  The C++ type \<open>double\<close> is modelled by \<^typ>\<open>real\<close>: every statement below is about exact
  real arithmetic, except those on \<open>diff_binary64\<close> and \<open>undiff_binary64\<close>, which round. The C++ type \<open>int\<close> is modelled by \<^typ>\<open>int\<close> or, for array sizes
  and indices that the source keeps non-negative, by \<^typ>\<open>nat\<close>. Arrays are lists that
  keep their allocated length.
\<close>

subsection \<open>Free helper functions\<close>

text \<open>The conversion \<open>(int)x\<close> of a double truncates towards zero.\<close>

definition c_int :: "real \<Rightarrow> int" where
  "c_int x = (if 0 \<le> x then \<lfloor>x\<rfloor> else \<lceil>x\<rceil>)"

definition sgn_c :: "real \<Rightarrow> int" where
  "sgn_c val = (if 0 < val then 1 else 0) - (if val < 0 then 1 else 0)"

definition nsgn :: "real \<Rightarrow> real" where
  "nsgn val = (if val < 0 then -1 else 1)"

definition length_c :: "real \<Rightarrow> real \<Rightarrow> real" where
  "length_c x y = sqrt (x*x + y*y)"

definition cubicPulse :: "real \<Rightarrow> real" where
  "cubicPulse x0 = (let x = min \<bar>x0\<bar> 1 in 1 - x*x*(3 - 2*x))"

definition rotate_c :: "real \<Rightarrow> real \<Rightarrow> real \<Rightarrow> real \<times> real" where
  "rotate_c x y phi = (cos phi * x + sin phi * y, - sin phi * x + cos phi * y)"

definition triangleOccupancy :: "real \<Rightarrow> real \<Rightarrow> real \<Rightarrow> real" where
  "triangleOccupancy out1 in0 out2 = 0.5*in0*in0/((out1 - in0)*(out2 - in0))"

definition trapezoidOccupancy :: "real \<Rightarrow> real \<Rightarrow> real \<Rightarrow> real \<Rightarrow> real" where
  "trapezoidOccupancy out1 out2 in1 in2 = 0.5*(- in1/(out1 - in1) - in2/(out2 - in2))"

text \<open>
  The case index of \<open>occupancy\<close>: the loop runs over \<open>ds = {d11, d12, d22, d21}\<close> from
  \<open>i = 3\<close> down to \<open>0\<close> and shifts one sign bit in at each step, so bit \<open>i\<close> of the result
  is the sign of \<open>ds[i]\<close>. The value stays below 16, so the \<open>uint8_t\<close> never wraps.
\<close>

definition occupancy_case :: "real \<Rightarrow> real \<Rightarrow> real \<Rightarrow> real \<Rightarrow> nat" where
  "occupancy_case d11 d12 d21 d22 =
     foldl (\<lambda>b d. 2*b + (if d < 0 then 1 else 0)) 0 [d21, d22, d12, d11]"

definition occupancy :: "real \<Rightarrow> real \<Rightarrow> real \<Rightarrow> real \<Rightarrow> real" where
  "occupancy d11 d12 d21 d22 =
     (let b = occupancy_case d11 d12 d21 d22 in
      if b = 0 then 0
      else if b = 1 then triangleOccupancy d21 d11 d12
      else if b = 2 then triangleOccupancy d11 d12 d22
      else if b = 4 then triangleOccupancy d12 d22 d21
      else if b = 8 then triangleOccupancy d22 d21 d11
      else if b = 14 then 1 - triangleOccupancy (-d21) (-d11) (-d12)
      else if b = 13 then 1 - triangleOccupancy (-d11) (-d12) (-d22)
      else if b = 11 then 1 - triangleOccupancy (-d12) (-d22) (-d21)
      else if b = 7 then 1 - triangleOccupancy (-d22) (-d21) (-d11)
      else if b = 3 then trapezoidOccupancy d21 d22 d11 d12
      else if b = 6 then trapezoidOccupancy d11 d21 d12 d22
      else if b = 9 then trapezoidOccupancy d12 d22 d11 d21
      else if b = 12 then trapezoidOccupancy d11 d12 d21 d22
      else if b = 5 then triangleOccupancy d11 d12 d22 + triangleOccupancy d22 d21 d11
      else if b = 10 then triangleOccupancy d21 d11 d12 + triangleOccupancy d12 d22 d21
      else if b = 15 then 1
      else 0)"

subsection \<open>Solid bodies\<close>

datatype CellType = CELL_FLUID | CELL_SOLID | CELL_EMPTY

datatype BodyKind = SolidBox | SolidSphere

text \<open>
  \<open>SolidBody\<close> with its two subclasses; \<open>kind\<close> stands for the dynamic type that selects
  the virtual functions. A sphere is constructed with \<open>scaleX = scaleY = s\<close>.
\<close>

record SolidBody =
  kind :: BodyKind
  b_posX :: real
  b_posY :: real
  b_scaleX :: real
  b_scaleY :: real
  b_theta :: real
  b_velX :: real
  b_velY :: real
  b_velTheta :: real

definition globalToLocal :: "SolidBody \<Rightarrow> real \<Rightarrow> real \<Rightarrow> real \<times> real" where
  "globalToLocal b x y =
     (let (x1, y1) = rotate_c (x - b_posX b) (y - b_posY b) (- b_theta b)
      in (x1 / b_scaleX b, y1 / b_scaleY b))"

definition localToGlobal :: "SolidBody \<Rightarrow> real \<Rightarrow> real \<Rightarrow> real \<times> real" where
  "localToGlobal b x y =
     (let (x1, y1) = rotate_c (x * b_scaleX b) (y * b_scaleY b) (b_theta b)
      in (x1 + b_posX b, y1 + b_posY b))"

definition velocityX :: "SolidBody \<Rightarrow> real \<Rightarrow> real \<Rightarrow> real" where
  "velocityX b x y = (b_posY b - y) * b_velTheta b + b_velX b"

definition velocityY :: "SolidBody \<Rightarrow> real \<Rightarrow> real \<Rightarrow> real" where
  "velocityY b x y = (x - b_posX b) * b_velTheta b + b_velY b"

definition distance :: "SolidBody \<Rightarrow> real \<Rightarrow> real \<Rightarrow> real" where
  "distance b x y =
     (case kind b of
        SolidBox \<Rightarrow>
          (let (x1, y1) = rotate_c (x - b_posX b) (y - b_posY b) (- b_theta b);
               dx = \<bar>x1\<bar> - b_scaleX b * 0.5;
               dy = \<bar>y1\<bar> - b_scaleY b * 0.5
           in if dx \<ge> 0 \<or> dy \<ge> 0 then length_c (max dx 0) (max dy 0) else max dx dy)
      | SolidSphere \<Rightarrow> length_c (x - b_posX b) (y - b_posY b) - b_scaleX b * 0.5)"

definition closestSurfacePoint :: "SolidBody \<Rightarrow> real \<Rightarrow> real \<Rightarrow> real \<times> real" where
  "closestSurfacePoint b x y =
     (case kind b of
        SolidBox \<Rightarrow>
          (let (x1, y1) = rotate_c (x - b_posX b) (y - b_posY b) (- b_theta b);
               dx = \<bar>x1\<bar> - b_scaleX b * 0.5;
               dy = \<bar>y1\<bar> - b_scaleY b * 0.5;
               (x2, y2) = (if dx > dy then (nsgn x1 * 0.5 * b_scaleX b, y1)
                           else (x1, nsgn y1 * 0.5 * b_scaleY b));
               (x3, y3) = rotate_c x2 y2 (b_theta b)
           in (x3 + b_posX b, y3 + b_posY b))
      | SolidSphere \<Rightarrow>
          (let (x1, y1) = globalToLocal b x y;
               r = length_c x1 y1;
               (x2, y2) = (if r < 0.0001 then (0.5, 0) else (x1 / (2*r), y1 / (2*r)))
           in localToGlobal b x2 y2))"

text \<open>
  The sphere rounds the radius to \<open>float\<close> before it divides; the model keeps the
  exact radius.
\<close>

definition distanceNormal :: "SolidBody \<Rightarrow> real \<Rightarrow> real \<Rightarrow> real \<times> real" where
  "distanceNormal b x y =
     (case kind b of
        SolidBox \<Rightarrow>
          (let (x1, y1) = rotate_c (x - b_posX b) (y - b_posY b) (- b_theta b);
               (nx, ny) = (if \<bar>x1\<bar> - b_scaleX b * 0.5 > \<bar>y1\<bar> - b_scaleY b * 0.5
                           then (nsgn x1, 0) else (0, nsgn y1))
           in rotate_c nx ny (b_theta b))
      | SolidSphere \<Rightarrow>
          (let x1 = x - b_posX b; y1 = y - b_posY b; r = length_c x1 y1
           in if r < 0.0001 then (1, 0) else (x1 / r, y1 / r)))"

subsection \<open>FluidQuantity\<close>

record FluidQuantity =
  src :: "real list"
  old :: "real list"
  phi :: "real list"
  volume :: "real list"
  normalX :: "real list"
  normalY :: "real list"
  cell :: "CellType list"
  body :: "nat list"
  mask :: "8 word list"
  q_w :: nat
  q_h :: nat
  q_ox :: real
  q_oy :: real
  q_hx :: real

text \<open>
  The constructor sets \<open>cell\<close>, \<open>volume\<close> and \<open>src\<close>; the other arrays are allocated
  without a value, which the model writes as zeros.
\<close>

definition FluidQuantity_new :: "nat \<Rightarrow> nat \<Rightarrow> real \<Rightarrow> real \<Rightarrow> real \<Rightarrow> FluidQuantity" where
  "FluidQuantity_new w h ox oy hx =
     \<lparr> src = replicate (w*h) 0, old = replicate (w*h) 0,
       phi = replicate ((w + 1)*(h + 1)) 0,
       volume = replicate (w*h) 1,
       normalX = replicate (w*h) 0, normalY = replicate (w*h) 0,
       cell = replicate (w*h) CELL_FLUID,
       body = replicate (w*h) 0, mask = replicate (w*h) 0,
       q_w = w, q_h = h, q_ox = ox, q_oy = oy, q_hx = hx \<rparr>"

definition lerp1 :: "real \<Rightarrow> real \<Rightarrow> real \<Rightarrow> real" where
  "lerp1 a b x = a*(1 - x) + b*x"

definition idx :: "FluidQuantity \<Rightarrow> int \<Rightarrow> int \<Rightarrow> nat" where
  "idx q x y = nat (x + y * int (q_w q))"

definition at_c :: "FluidQuantity \<Rightarrow> int \<Rightarrow> int \<Rightarrow> real" where
  "at_c q x y = src q ! idx q x y"

definition volume_at :: "FluidQuantity \<Rightarrow> int \<Rightarrow> int \<Rightarrow> real" where
  "volume_at q x y = volume q ! idx q x y"

definition copy :: "FluidQuantity \<Rightarrow> FluidQuantity" where
  "copy q = q\<lparr>old := take (q_w q * q_h q) (src q) @ drop (q_w q * q_h q) (old q)\<rparr>"

text \<open>
  The loops of \<open>diff\<close> and \<open>undiff\<close> run over \<open>i = 0, \<dots>, w*h - 1\<close>. The source
  rounds every product, difference and sum of these loops to a \<open>double\<close>; \<open>diff\<close> and
  \<open>undiff\<close> take them exactly, as every other definition of this theory does, and
  \<open>diff_binary64\<close> and \<open>undiff_binary64\<close> below keep the rounding.
\<close>

definition diff :: "real \<Rightarrow> FluidQuantity \<Rightarrow> FluidQuantity" where
  "diff alpha q =
     q\<lparr>src := foldl (\<lambda>s i. s[i := s ! i - (1 - alpha) * old q ! i]) (src q) [0..<q_w q * q_h q]\<rparr>"


text \<open>
  Rounding to \<open>double\<close> (IEEE 754 binary64, round to nearest, ties to even): the value
  is rounded to a multiple of \<open>2^(e - 52)\<close>, where \<open>e\<close> is the exponent of the value and
  at least \<open>-1022\<close> (below that the numbers are subnormal and the spacing is
  \<open>2^-1074\<close>). A result of magnitude \<open>2^1024\<close> or more is an overflow in the source; it
  is kept as the rounded real here. \<open>diff_binary64\<close> and \<open>undiff_binary64\<close> are the two
  loops with each operation of \<open>_src[i] -= (1.0 - alpha)*_old[i]\<close> rounded in the order
  of evaluation: the difference \<open>1.0 - alpha\<close>, the product, and the stored result.
\<close>

definition round_half_even :: "real \<Rightarrow> int" where
  "round_half_even r =
     (let f = \<lfloor>r\<rfloor>; d = r - of_int f
      in if d < 1/2 then f else if 1/2 < d then f + 1 else if even f then f else f + 1)"

definition pow2 :: "int \<Rightarrow> real" where
  "pow2 e = (if 0 \<le> e then 2 ^ nat e else 1 / 2 ^ nat (- e))"

definition binary64 :: "real \<Rightarrow> real" where
  "binary64 x =
     (if x = 0 then 0
      else let e = max \<lfloor>log 2 \<bar>x\<bar>\<rfloor> (-1022);
               u = pow2 (e - 52)
           in of_int (round_half_even (x / u)) * u)"

definition diff_binary64 :: "real \<Rightarrow> FluidQuantity \<Rightarrow> FluidQuantity" where
  "diff_binary64 alpha q =
     q\<lparr>src := foldl (\<lambda>s i. s[i := binary64 (s ! i - binary64 (binary64 (1 - alpha) * old q ! i))])
                    (src q) [0..<q_w q * q_h q]\<rparr>"

definition undiff_binary64 :: "real \<Rightarrow> FluidQuantity \<Rightarrow> FluidQuantity" where
  "undiff_binary64 alpha q =
     q\<lparr>src := foldl (\<lambda>s i. s[i := binary64 (s ! i + binary64 (binary64 (1 - alpha) * old q ! i))])
                    (src q) [0..<q_w q * q_h q]\<rparr>"

text \<open>
  \<open>lerp(x, y)\<close>: the clamped local coordinates, the base cell and the fractions, then the
  bilinear blend of the four samples.
\<close>

definition lerp_coords :: "FluidQuantity \<Rightarrow> real \<Rightarrow> real \<Rightarrow> int \<times> int \<times> real \<times> real" where
  "lerp_coords q x0 y0 =
     (let x = min (max (x0 - q_ox q) 0) (real (q_w q) - 1.001);
          y = min (max (y0 - q_oy q) 0) (real (q_h q) - 1.001);
          ix = c_int x;
          iy = c_int y
      in (ix, iy, x - real_of_int ix, y - real_of_int iy))"

definition lerp :: "FluidQuantity \<Rightarrow> real \<Rightarrow> real \<Rightarrow> real" where
  "lerp q x0 y0 =
     (let (ix, iy, x, y) = lerp_coords q x0 y0;
          x00 = at_c q (ix + 0) (iy + 0); x10 = at_c q (ix + 1) (iy + 0);
          x01 = at_c q (ix + 0) (iy + 1); x11 = at_c q (ix + 1) (iy + 1)
      in lerp1 (lerp1 x00 x10 x) (lerp1 x01 x11 x) y)"

text \<open>
  \<open>addInflow\<close>: both loop bounds are non-negative, so the ranges are ranges of naturals.
  The inner bound is \<open>min(ix1, _h)\<close> in the source.
\<close>

definition addInflow_sample ::
  "FluidQuantity \<Rightarrow> real \<Rightarrow> real \<Rightarrow> real \<Rightarrow> real \<Rightarrow> real \<Rightarrow> nat \<Rightarrow> real list \<Rightarrow> nat \<Rightarrow> real list" where
  "addInflow_sample q x0 y0 x1 y1 v y s x =
     (let l = length_c ((2*(real x + 0.5)*q_hx q - (x0 + x1))/(x1 - x0))
                       ((2*(real y + 0.5)*q_hx q - (y0 + y1))/(y1 - y0));
          vi = cubicPulse l * v
      in if \<bar>s ! (x + y * q_w q)\<bar> < \<bar>vi\<bar> then s[x + y * q_w q := vi] else s)"

definition addInflow :: "real \<Rightarrow> real \<Rightarrow> real \<Rightarrow> real \<Rightarrow> real \<Rightarrow> FluidQuantity \<Rightarrow> FluidQuantity" where
  "addInflow x0 y0 x1 y1 v q =
     (let ix0 = c_int (x0 / q_hx q - q_ox q);
          iy0 = c_int (y0 / q_hx q - q_oy q);
          ix1 = c_int (x1 / q_hx q - q_ox q);
          iy1 = c_int (y1 / q_hx q - q_oy q)
      in q\<lparr>src :=
           foldl (\<lambda>s y. foldl (addInflow_sample q x0 y0 x1 y1 v y) s
                           [nat (max ix0 0) ..< nat (min ix1 (int (q_h q)))])
                 (src q)
                 [nat (max iy0 0) ..< nat (min iy1 (int (q_h q)))]\<rparr>)"

text \<open>
  The cells of a \<open>w \<times> h\<close> grid in the order of the loop nest
  \<open>for (y = 0; y < h; y++) for (x = 0; x < w; x++)\<close>. Where the source keeps a running
  counter \<open>idx\<close> that is incremented with \<open>x\<close>, its value at cell \<open>(x, y)\<close> is \<open>x + y*w\<close>.
\<close>

definition grid_cells :: "nat \<Rightarrow> nat \<Rightarrow> (nat \<times> nat) list" where
  "grid_cells w h = concat (map (\<lambda>y. map (\<lambda>x. (x, y)) [0..<w]) [0..<h])"

definition min_distance :: "SolidBody list \<Rightarrow> real \<Rightarrow> real \<Rightarrow> real" where
  "min_distance bodies x y =
     foldl (\<lambda>d b. min d (distance b x y)) (distance (hd bodies) x y) (tl bodies)"

text \<open>
  The search for the closest body: the pair is the index of the closest body so far
  (stored in a \<open>uint8_t\<close>, hence modulo 256) and its distance.
\<close>

definition closest_body :: "SolidBody list \<Rightarrow> real \<Rightarrow> real \<Rightarrow> nat \<times> real" where
  "closest_body bodies x y =
     foldl (\<lambda>(bi, d) i. let id = distance (bodies ! i) x y
                         in if id < d then (i mod 256, id) else (bi, d))
           (0, distance (hd bodies) x y) [1..<length bodies]"

definition fillSolidFields_phi :: "SolidBody list \<Rightarrow> FluidQuantity \<Rightarrow> real list \<Rightarrow> nat \<times> nat \<Rightarrow> real list" where
  "fillSolidFields_phi bodies q p = (\<lambda>(ix, iy).
     let x = (real ix + q_ox q - 0.5) * q_hx q;
         y = (real iy + q_oy q - 0.5) * q_hx q
     in p[ix + iy * (q_w q + 1) := min_distance bodies x y])"

definition fillSolidFields_cell :: "SolidBody list \<Rightarrow> FluidQuantity \<Rightarrow> nat \<times> nat \<Rightarrow> FluidQuantity" where
  "fillSolidFields_cell bodies q = (\<lambda>(ix, iy).
     let i = ix + iy * q_w q;
         x = (real ix + q_ox q) * q_hx q;
         y = (real iy + q_oy q) * q_hx q;
         (bi, d) = closest_body bodies x y;
         idxp = ix + iy * (q_w q + 1);
         vol0 = 1 - occupancy (phi q ! idxp) (phi q ! (idxp + 1))
                              (phi q ! (idxp + q_w q + 1)) (phi q ! (idxp + q_w q + 2));
         vol = (if vol0 < 0.01 then 0 else vol0);
         (nx, ny) = distanceNormal (bodies ! bi) x y
     in q\<lparr>body := (body q)[i := bi],
          volume := (volume q)[i := vol],
          normalX := (normalX q)[i := nx],
          normalY := (normalY q)[i := ny],
          cell := (cell q)[i := (if vol = 0 then CELL_SOLID else CELL_FLUID)]\<rparr>)"

definition fillSolidFields :: "SolidBody list \<Rightarrow> FluidQuantity \<Rightarrow> FluidQuantity" where
  "fillSolidFields bodies q =
     (if bodies = [] then q
      else let q1 = q\<lparr>phi := foldl (fillSolidFields_phi bodies q) (phi q)
                                    (grid_cells (q_w q + 1) (q_h q + 1))\<rparr>
           in foldl (fillSolidFields_cell bodies) q1 (grid_cells (q_w q) (q_h q)))"

text \<open>
  The diagonal saddle configurations of \<open>occupancy\<close>: exactly two opposite corners are
  negative (cases \<open>0x5\<close> and \<open>0xA\<close>).
\<close>

definition saddle :: "real \<Rightarrow> real \<Rightarrow> real \<Rightarrow> real \<Rightarrow> bool" where
  "saddle d11 d12 d21 d22 \<longleftrightarrow>
     (d11 < 0 \<and> d22 < 0 \<and> 0 < d12 \<and> 0 < d21) \<or> (0 < d11 \<and> 0 < d22 \<and> d12 < 0 \<and> d21 < 0)"

text \<open>The admissible fractional volumes: zero, or between 0.01 and 1.\<close>

definition volume_ok :: "real \<Rightarrow> bool" where
  "volume_ok v \<longleftrightarrow> v = 0 \<or> (0.01 \<le> v \<and> v \<le> 1)"

subsection \<open>Extrapolation\<close>

text \<open>An array index moved by a signed offset, as in \<open>idx + sgn(nx)\<close>.\<close>

definition off :: "nat \<Rightarrow> int \<Rightarrow> nat" where
  "off i k = nat (int i + k)"

definition interior_cells :: "nat \<Rightarrow> nat \<Rightarrow> (nat \<times> nat) list" where
  "interior_cells w h = concat (map (\<lambda>y. map (\<lambda>x. (x, y)) [1..<w - 1]) [1..<h - 1])"

definition fillSolidMask_cell :: "FluidQuantity \<Rightarrow> 8 word list \<Rightarrow> nat \<times> nat \<Rightarrow> 8 word list" where
  "fillSolidMask_cell q m = (\<lambda>(x, y).
     let i = x + y * q_w q;
         m0 = m[i := 0]
     in if cell q ! i = CELL_SOLID then
          let nx = normalX q ! i;
              ny = normalY q ! i;
              m1 = (if nx \<noteq> 0 \<and> cell q ! off i (sgn_c nx) \<noteq> CELL_FLUID
                    then m0[i := or (m0 ! i) 1] else m0)
          in (if ny \<noteq> 0 \<and> cell q ! off i (sgn_c ny * int (q_w q)) \<noteq> CELL_FLUID
              then m1[i := or (m1 ! i) 2] else m1)
        else if cell q ! i = CELL_EMPTY then
          m0[i := (if cell q ! (i - 1) \<noteq> CELL_FLUID \<and> cell q ! (i + 1) \<noteq> CELL_FLUID \<and>
                      cell q ! (i - q_w q) \<noteq> CELL_FLUID \<and> cell q ! (i + q_w q) \<noteq> CELL_FLUID
                   then 1 else 0)]
        else m0)"

definition fillSolidMask :: "FluidQuantity \<Rightarrow> FluidQuantity" where
  "fillSolidMask q =
     (let w = q_w q; h = q_h q;
          m1 = foldl (\<lambda>m x. m[x + (h - 1)*w := 0xFF, x := 0xFF]) (mask q) [0..<w];
          m2 = foldl (\<lambda>m y. m[y*w + w - 1 := 0xFF, y*w := 0xFF]) m1 [0..<h]
      in q\<lparr>mask := foldl (fillSolidMask_cell q) m2 (interior_cells w h)\<rparr>)"



text \<open>The stack \<open>border\<close> is a list whose head is the top.\<close>

definition freeSolidNeighbour :: "nat \<Rightarrow> 8 word \<Rightarrow> FluidQuantity \<times> nat list \<Rightarrow> FluidQuantity \<times> nat list" where
  "freeSolidNeighbour i m = (\<lambda>(q, border).
     if cell q ! i = CELL_SOLID then
       let q1 = q\<lparr>mask := (mask q)[i := and (mask q ! i) (not m)]\<rparr>
       in if mask q1 ! i = 0 then (q1, i # border) else (q1, border)
     else (q, border))"






subsection \<open>Particle to grid transfer\<close>




subsection \<open>ParticleQuantities\<close>

text \<open>
  \<open>frand\<close>: the static seed is threaded through. The seed has 31 bits, so \<open>seed >> 8\<close>
  has 23 bits; or-ed with \<open>0x3F800000\<close> it is the bit pattern of the float
  \<open>1 + (seed >> 8)/2^23\<close>, from which the source subtracts \<open>1.0f\<close>.
\<close>

definition frand :: "32 word \<Rightarrow> real \<times> 32 word" where
  "frand seed0 =
     (let seed = and (seed0 * 1103515245 + 12345) 0x7FFFFFFF
      in (real (unat (drop_bit 8 seed)) / 2^23, seed))"

text \<open>
  The particle pool. \<open>p_bodies\<close> is the reference to the body list, which is the list
  of the solver; no function of the solver changes a body. The quantities registered
  with \<open>addQuantity\<close> are pointers to the grids of the solver: the functions below
  take the list of these grids as an argument, and return it when they change it.
  \<open>properties ! t\<close> is the property array of quantity \<open>t\<close>. The sums \<open>x + frand()\<close> are
  taken exactly; the source rounds them to \<open>float\<close>.
\<close>

record ParticleQuantities =
  particleCount :: nat
  maxParticles :: nat
  p_w :: nat
  p_h :: nat
  p_hx :: real
  p_bodies :: "SolidBody list"
  weight :: "real list"
  counts :: "int list"
  posX :: "real list"
  posY :: "real list"
  properties :: "real list list"
  seed :: "32 word"

definition MinPerCell :: nat where "MinPerCell = 3"

definition pointInBody :: "ParticleQuantities \<Rightarrow> real \<Rightarrow> real \<Rightarrow> bool" where
  "pointInBody p x y = list_ex (\<lambda>b. distance b (x * p_hx p) (y * p_hx p) < 0) (p_bodies p)"






text \<open>
  \<open>seedParticles\<close>: one attempt of the innermost loop at cell \<open>(x, y)\<close>. The source
  returns from the function when the pool is full; since a full pool stays full, every
  later attempt would return at once as well, so the attempt of a full pool is the
  identity. The test for a body reads the position stored at the cell index \<open>idx\<close>.
\<close>

definition seedParticles_attempt ::
  "FluidQuantity list \<Rightarrow> nat \<times> nat \<Rightarrow> ParticleQuantities \<Rightarrow> ParticleQuantities" where
  "seedParticles_attempt qs = (\<lambda>(x, y) p.
     if particleCount p = maxParticles p then p
     else
       let ci = x + y * p_w p;
           j = particleCount p;
           (fx, s1) = frand (seed p);
           (fy, s2) = frand s1;
           p1 = p\<lparr>posX := (posX p)[j := real x + fx],
                   posY := (posY p)[j := real y + fy], seed := s2\<rparr>
       in if pointInBody p1 (posX p1 ! ci) (posY p1 ! ci) then p1
          else p1\<lparr>properties :=
                    foldl (\<lambda>prs t. prs[t := (prs ! t)[j := lerp (qs ! t) (posX p1 ! j) (posY p1 ! j)]])
                          (properties p1) [0..<length qs],
                  particleCount := particleCount p1 + 1\<rparr>)"

definition seedParticles :: "FluidQuantity list \<Rightarrow> ParticleQuantities \<Rightarrow> ParticleQuantities" where
  "seedParticles qs p =
     foldl (\<lambda>p (x, y).
              foldl (\<lambda>p i. seedParticles_attempt qs (x, y) p) p
                    [0..<nat (int MinPerCell - counts p ! (x + y * p_w p))])
           p (grid_cells (p_w p) (p_h p))"

text \<open>
  \<open>backProject\<close>: the search keeps the closest distance, starting from \<open>1e30\<close>, and
  the index of its body.
\<close>

definition backProject :: "ParticleQuantities \<Rightarrow> real \<Rightarrow> real \<Rightarrow> real \<times> real" where
  "backProject p x y =
     (let (d, closestBody) =
            foldl (\<lambda>(d, cb) i. let id = distance (p_bodies p ! i) (x * p_hx p) (y * p_hx p)
                                in if id < d then (id, int i) else (d, cb))
                  (10^30, -1) [0..<length (p_bodies p)]
      in if d < -1 then
           let b = p_bodies p ! nat closestBody;
               (x1, y1) = closestSurfacePoint b (x * p_hx p) (y * p_hx p);
               (nx, ny) = distanceNormal b x1 y1
           in ((x1 - nx * p_hx p) / p_hx p, (y1 - ny * p_hx p) / p_hx p)
         else (x, y))"

definition rungeKutta3 ::
  "ParticleQuantities \<Rightarrow> real \<Rightarrow> FluidQuantity \<Rightarrow> FluidQuantity \<Rightarrow> real \<Rightarrow> real \<Rightarrow> real \<times> real" where
  "rungeKutta3 p timestep u v x y =
     (let firstU = lerp u x y / p_hx p;
          firstV = lerp v x y / p_hx p;
          midX = x + 0.5*timestep*firstU;
          midY = y + 0.5*timestep*firstV;
          midU = lerp u midX midY / p_hx p;
          midV = lerp v midX midY / p_hx p;
          lastX = x + 0.75*timestep*midU;
          lastY = y + 0.75*timestep*midV;
          lastU = lerp u lastX lastY;
          lastV = lerp v lastX lastY
      in (x + timestep*((2/9)*firstU + (3/9)*midU + (4/9)*lastU),
          y + timestep*((2/9)*firstV + (3/9)*midV + (4/9)*lastV)))"

definition advect :: "real \<Rightarrow> FluidQuantity \<Rightarrow> FluidQuantity \<Rightarrow> ParticleQuantities \<Rightarrow> ParticleQuantities" where
  "advect timestep u v p =
     foldl (\<lambda>p i.
              let (x1, y1) = rungeKutta3 p timestep u v (posX p ! i) (posY p ! i);
                  (x2, y2) = backProject p x1 y1
              in p\<lparr>posX := (posX p)[i := max (min x2 (real (p_w p) - 0.001)) 0],
                    posY := (posY p)[i := max (min y2 (real (p_h p) - 0.001)) 0]\<rparr>)
           p [0..<particleCount p]"

definition gridToParticles_particle ::
  "real \<Rightarrow> FluidQuantity list \<Rightarrow> nat \<Rightarrow> ParticleQuantities \<Rightarrow> nat \<Rightarrow> ParticleQuantities" where
  "gridToParticles_particle alpha qs t p i =
     (let pr = properties p ! t;
          pr1 = pr[i := pr ! i * (1 - alpha)];
          pr2 = pr1[i := pr1 ! i + lerp (qs ! t) (posX p ! i) (posY p ! i)]
      in p\<lparr>properties := (properties p)[t := pr2]\<rparr>)"

definition gridToParticles :: "real \<Rightarrow> FluidQuantity list \<Rightarrow> ParticleQuantities \<Rightarrow> ParticleQuantities" where
  "gridToParticles alpha qs p =
     foldl (\<lambda>p t. foldl (gridToParticles_particle alpha qs t) p [0..<particleCount p])
           p [0..<length qs]"





subsection \<open>FluidSolver\<close>

text \<open>
  The solver. \<open>fs_r\<close>, \<open>fs_p\<close>, \<open>fs_z\<close>, \<open>fs_s\<close> are the arrays \<open>_r\<close>, \<open>_p\<close>, \<open>_z\<close>,
  \<open>_s\<close> of the conjugate gradient method.
\<close>

record FluidSolver =
  fs_d :: FluidQuantity
  fs_t :: FluidQuantity
  fs_u :: FluidQuantity
  fs_v :: FluidQuantity
  fs_qs :: ParticleQuantities
  uDensity :: "real list"
  vDensity :: "real list"
  fs_w :: nat
  fs_h :: nat
  fs_hx :: real
  densityAir :: real
  densitySoot :: real
  diffusion :: real
  fs_r :: "real list"
  fs_p :: "real list"
  fs_z :: "real list"
  fs_s :: "real list"
  precon :: "real list"
  aDiag :: "real list"
  aPlusX :: "real list"
  aPlusY :: "real list"
  tAmb :: real
  fs_g :: real
  flipAlpha :: real
  fs_bodies :: "SolidBody list"


definition memset0 :: "real list \<Rightarrow> nat \<Rightarrow> real list" where
  "memset0 dst n = replicate (min n (length dst)) 0 @ drop n dst"


definition computeDensities :: "FluidSolver \<Rightarrow> FluidSolver" where
  "computeDensities s =
     (let alpha = (densitySoot s - densityAir s) / densityAir s;
          w = fs_w s; h = fs_h s;
          ud0 = memset0 (uDensity s) ((w + 1)*h);
          vd0 = memset0 (vDensity s) (w*(h + 1));
          (ud, vd) =
            foldl (\<lambda>(ud, vd) (x, y).
               let X = int x; Y = int y;
                   density0 = densityAir s * tAmb s / at_c (fs_t s) X Y * (1 + alpha * at_c (fs_d s) X Y);
                   density = max density0 (0.05 * densityAir s);
                   ud1 = ud[idx (fs_u s) X Y := ud ! idx (fs_u s) X Y + 0.5*density];
                   vd1 = vd[idx (fs_v s) X Y := vd ! idx (fs_v s) X Y + 0.5*density];
                   ud2 = ud1[idx (fs_u s) (X + 1) Y := ud1 ! idx (fs_u s) (X + 1) Y + 0.5*density];
                   vd2 = vd1[idx (fs_v s) X (Y + 1) := vd1 ! idx (fs_v s) X (Y + 1) + 0.5*density]
               in (ud2, vd2))
              (ud0, vd0) (grid_cells w h)
      in s\<lparr>uDensity := ud, vDensity := vd\<rparr>)"

text \<open>
  \<open>buildPressureMatrix\<close>: the state of the loop is the triple of the three coefficient
  arrays. The density of the face towards \<open>+y\<close> is read at \<open>_u->idx(x, y + 1)\<close>, as in
  the source.
\<close>

definition buildPressureMatrix_cell ::
  "FluidSolver \<Rightarrow> real \<Rightarrow> real list \<times> real list \<times> real list \<Rightarrow> nat \<times> nat \<Rightarrow> real list \<times> real list \<times> real list" where
  "buildPressureMatrix_cell s scale = (\<lambda>(ad, ax, ay) (x, y).
     let w = fs_w s; h = fs_h s; c = cell (fs_d s); i = x + y*w; X = int x; Y = int y
     in if c ! i \<noteq> CELL_FLUID then (ad, ax, ay)
        else
          let (ad1, ax1) =
                (if int x < int w - 1 \<and> c ! (i + 1) = CELL_FLUID then
                   let factor = scale * volume_at (fs_u s) (X + 1) Y / uDensity s ! idx (fs_u s) (X + 1) Y;
                       a1 = ad[i := ad ! i + factor]
                   in (a1[i + 1 := a1 ! (i + 1) + factor], ax[i := - factor])
                 else (ad, ax))
          in if int y < int h - 1 \<and> c ! (i + w) = CELL_FLUID then
               let factor = scale * volume_at (fs_v s) X (Y + 1) / vDensity s ! idx (fs_u s) X (Y + 1);
                   a2 = ad1[i := ad1 ! i + factor]
               in (a2[i + w := a2 ! (i + w) + factor], ax1, ay[i := - factor])
             else (ad1, ax1, ay))"

definition buildPressureMatrix :: "real \<Rightarrow> FluidSolver \<Rightarrow> FluidSolver" where
  "buildPressureMatrix timestep s =
     (let scale = timestep / (fs_hx s * fs_hx s);
          n = fs_w s * fs_h s;
          (ad, ax, ay) = foldl (buildPressureMatrix_cell s scale)
                           (memset0 (aDiag s) n, memset0 (aPlusX s) n, memset0 (aPlusY s) n)
                           (grid_cells (fs_w s) (fs_h s))
      in s\<lparr>aDiag := ad, aPlusX := ax, aPlusY := ay\<rparr>)"










definition set_at :: "FluidQuantity \<Rightarrow> int \<Rightarrow> int \<Rightarrow> real \<Rightarrow> FluidQuantity" where
  "set_at q x y val = q\<lparr>src := (src q)[idx q x y := val]\<rparr>"



text \<open>
  \<open>setBoundaryCondition\<close>: the four writes of a solid cell all call \<open>velocityX\<close>, as in
  the source; the two loops over the outer ring follow.
\<close>

definition setBoundaryCondition_cell ::
  "FluidSolver \<Rightarrow> FluidQuantity \<times> FluidQuantity \<Rightarrow> nat \<times> nat \<Rightarrow> FluidQuantity \<times> FluidQuantity" where
  "setBoundaryCondition_cell s = (\<lambda>(u, v) (x, y).
     let i = x + y * fs_w s; X = int x; Y = int y; hx = fs_hx s
     in if cell (fs_d s) ! i = CELL_SOLID then
          let b = fs_bodies s ! (body (fs_d s) ! i);
              u1 = set_at u X Y (velocityX b (real x * hx) ((real y + 0.5)*hx));
              v1 = set_at v X Y (velocityX b ((real x + 0.5)*hx) (real y * hx));
              u2 = set_at u1 (X + 1) Y (velocityX b ((real x + 1)*hx) ((real y + 0.5)*hx));
              v2 = set_at v1 X (Y + 1) (velocityX b ((real x + 0.5)*hx) ((real y + 1)*hx))
          in (u2, v2)
        else (u, v))"

definition setBoundaryCondition :: "FluidSolver \<Rightarrow> FluidSolver" where
  "setBoundaryCondition s =
     (let w = fs_w s; h = fs_h s;
          (u1, v1) = foldl (setBoundaryCondition_cell s) (fs_u s, fs_v s) (grid_cells w h);
          u2 = foldl (\<lambda>u y. set_at (set_at u (int w) (int y) 0) 0 (int y) 0) u1 [0..<h];
          v2 = foldl (\<lambda>v x. set_at (set_at v (int x) (int h) 0) (int x) 0 0) v1 [0..<w]
      in s\<lparr>fs_u := u2, fs_v := v2\<rparr>)"




subsection \<open>Example states\<close>

text \<open>
  A 2 by 2 solver at rest (\<open>hx = 0.5\<close>, air density 0.1, soot density 0.25), with no
  bodies and an empty particle pool.
\<close>

definition rest_d :: FluidQuantity where
  "rest_d = FluidQuantity_new 2 2 0.5 0.5 0.5"

definition rest_t :: FluidQuantity where
  "rest_t = (FluidQuantity_new 2 2 0.5 0.5 0.5)\<lparr>src := [294, 294, 294, 294]\<rparr>"

definition rest_u :: FluidQuantity where
  "rest_u = FluidQuantity_new 3 2 0 0.5 0.5"

definition rest_v :: FluidQuantity where
  "rest_v = FluidQuantity_new 2 3 0.5 0 0.5"

definition rest_pool :: ParticleQuantities where
  "rest_pool =
     \<lparr>particleCount = 0, maxParticles = 48, p_w = 2, p_h = 2, p_hx = 0.5,
       p_bodies = [], weight = replicate 9 0, counts = replicate 4 0,
       posX = replicate 48 0, posY = replicate 48 0,
       properties = replicate 4 (replicate 48 0), seed = 0\<rparr>"

definition rest_solver :: FluidSolver where
  "rest_solver =
     \<lparr> fs_d = rest_d, fs_t = rest_t, fs_u = rest_u, fs_v = rest_v, fs_qs = rest_pool,
       uDensity = replicate 6 0, vDensity = replicate 6 0,
       fs_w = 2, fs_h = 2, fs_hx = 0.5,
       densityAir = 0.1, densitySoot = 0.25, diffusion = 0.01,
       fs_r = replicate 4 0, fs_p = replicate 4 0, fs_z = replicate 4 0, fs_s = replicate 4 0,
       precon = replicate 4 0, aDiag = replicate 4 0,
       aPlusX = replicate 4 0, aPlusY = replicate 4 0,
       tAmb = 294, fs_g = 9.81, flipAlpha = 0.001, fs_bodies = [] \<rparr>"

text \<open>The same solver with a hot right column (588 against the ambient 294).\<close>

definition hot_column_solver :: FluidSolver where
  "hot_column_solver = rest_solver\<lparr>fs_t := rest_t\<lparr>src := [294, 588, 294, 588]\<rparr>\<rparr>"

text \<open>
  A box of side 0.6 centred at \<open>(0.25, 0.25)\<close>, which covers the cell \<open>(0, 0)\<close>, moving
  with velocity \<open>(1, 0)\<close>; and the 2 by 2 solver with this body after the solid fields of
  the density grid have been filled.
\<close>

definition moving_box :: SolidBody where
  "moving_box =
     \<lparr>kind = SolidBox, b_posX = 0.25, b_posY = 0.25, b_scaleX = 0.6, b_scaleY = 0.6,
       b_theta = 0, b_velX = 1, b_velY = 0, b_velTheta = 0\<rparr>"

definition moving_box_solver :: FluidSolver where
  "moving_box_solver =
     rest_solver\<lparr>fs_d := fillSolidFields [moving_box] rest_d, fs_bodies := [moving_box]\<rparr>"

text \<open>
  A box of side 0.6 centred at \<open>(0.75, 0.75)\<close>, which covers the cell \<open>(1, 1)\<close> of the 2
  by 2 grid, and a particle pool of that grid with this body: nine active particles,
  three in each of the cells \<open>(0, 0)\<close>, \<open>(1, 0)\<close> and \<open>(0, 1)\<close>, none in the covered
  cell, and the counts that \<open>countParticles\<close> gives for them.
\<close>

definition corner_box :: SolidBody where
  "corner_box =
     \<lparr>kind = SolidBox, b_posX = 0.75, b_posY = 0.75, b_scaleX = 0.6, b_scaleY = 0.6,
       b_theta = 0, b_velX = 0, b_velY = 0, b_velTheta = 0\<rparr>"

definition seed_pool :: ParticleQuantities where
  "seed_pool =
     \<lparr>particleCount = 9, maxParticles = 48, p_w = 2, p_h = 2, p_hx = 0.5,
       p_bodies = [corner_box], weight = replicate 9 0, counts = [3, 3, 3, 0],
       posX = [0.5, 0.5, 0.5, 1.5, 1.5, 1.5, 0.5, 0.5, 0.5] @ replicate 39 0,
       posY = [0.5, 0.5, 0.5, 0.5, 0.5, 0.5, 1.5, 1.5, 1.5] @ replicate 39 0,
       properties = replicate 4 (replicate 48 0), seed = 0xBA5EBA11\<rparr>"

text \<open>
  The \<open>u\<close> grid of the 2 by 2 solver with the uniform value 36, and a pool with the same
  body and one active particle at \<open>(0.85, 1.5)\<close>, just to the left of the body.
\<close>

definition stream_u :: FluidQuantity where
  "stream_u = rest_u\<lparr>src := replicate 6 36\<rparr>"

definition drift_pool :: ParticleQuantities where
  "drift_pool =
     \<lparr>particleCount = 1, maxParticles = 48, p_w = 2, p_h = 2, p_hx = 0.5,
       p_bodies = [corner_box], weight = replicate 9 0, counts = [0, 0, 1, 0],
       posX = 0.85 # replicate 47 0, posY = 1.5 # replicate 47 0,
       properties = replicate 4 (replicate 48 0), seed = 0xBA5EBA11\<rparr>"

subsection \<open>Invariants of the extrapolation loop\<close>






definition grid_frame :: "FluidQuantity \<Rightarrow> real \<times> real \<times> real \<times> real list \<times> real list" where
  "grid_frame q = (q_ox q, q_oy q, q_hx q, old q, volume q)"




definition grid_shape :: "FluidQuantity \<Rightarrow> nat \<times> nat \<times> CellType list \<times> nat" where
  "grid_shape q = (q_w q, q_h q, cell q, length (mask q))"


section \<open>Properties\<close>

subsection \<open>Occupancy\<close>

lemma occupancy_case_sum:
  "occupancy_case d11 d12 d21 d22 =
     (if d21 < 0 then 8 else 0) + (if d22 < 0 then 4 else 0) +
     (if d12 < 0 then 2 else 0) + (if d11 < 0 then 1 else 0)"
  by (simp add: occupancy_case_def)

lemma triangleOccupancy_neg:
  "triangleOccupancy (-a) (-b) (-c) = triangleOccupancy a b c"
proof -
  have "(- a - - b) * (- c - - b) = (a - b) * (c - b)"
    by (simp add: algebra_simps)
  then show ?thesis
    by (simp add: triangleOccupancy_def)
qed

lemma fraction_pair:
  fixes o1 i1 :: real
  assumes "o1 \<noteq> i1"
  shows "- i1 / (o1 - i1) + o1 / (o1 - i1) = 1"
proof -
  have "- i1 / (o1 - i1) + o1 / (o1 - i1) = (- i1 + o1) / (o1 - i1)"
    by (rule add_divide_distrib[symmetric])
  also have "\<dots> = 1"
    using assms by simp
  finally show ?thesis .
qed

lemma trapezoidOccupancy_pair:
  assumes "o1 \<noteq> i1" "o2 \<noteq> i2"
  shows "trapezoidOccupancy o1 o2 i1 i2 + trapezoidOccupancy (-i1) (-i2) (-o1) (-o2) = 1"
proof -
  define A1 A2 B1 B2 where "A1 = - i1 / (o1 - i1)" and "A2 = - i2 / (o2 - i2)"
    and "B1 = o1 / (o1 - i1)" and "B2 = o2 / (o2 - i2)"
  have a: "A1 + B1 = 1" "A2 + B2 = 1"
    unfolding A1_def A2_def B1_def B2_def
    using fraction_pair[OF assms(1)] fraction_pair[OF assms(2)] by blast+
  have t1: "trapezoidOccupancy o1 o2 i1 i2 = 0.5 * (A1 + A2)"
    by (simp add: trapezoidOccupancy_def A1_def A2_def)
  have t2: "trapezoidOccupancy (-i1) (-i2) (-o1) (-o2) = 0.5 * (B1 + B2)"
    by (simp add: trapezoidOccupancy_def B1_def B2_def)
  have "(A1 + A2) + (B1 + B2) = 2"
    using a by linarith
  then have "0.5 * (A1 + A2) + 0.5 * (B1 + B2) = 1"
    by argo
  then show ?thesis
    unfolding t1 t2 .
qed

text \<open>
  Claim C5, as amended. For corner distances that are all nonzero, the occupancy of a
  quartet and the occupancy of the negated quartet add up to 1 in every configuration
  except the two diagonal saddles; on a saddle the sum is the sum of the four corner
  triangles.
\<close>

theorem occupancy_complement:
  assumes "d11 \<noteq> 0" "d12 \<noteq> 0" "d21 \<noteq> 0" "d22 \<noteq> 0"
  shows "occupancy d11 d12 d21 d22 + occupancy (-d11) (-d12) (-d21) (-d22) =
           (if saddle d11 d12 d21 d22
            then triangleOccupancy d21 d11 d12 + triangleOccupancy d11 d12 d22 +
                 triangleOccupancy d12 d22 d21 + triangleOccupancy d22 d21 d11
            else 1)"
proof -
  have s: "d11 < 0 \<or> 0 < d11" "d12 < 0 \<or> 0 < d12" "d21 < 0 \<or> 0 < d21" "d22 < 0 \<or> 0 < d22"
    using assms by linarith+
  show ?thesis
    using s
    apply (elim disjE)
                   apply (simp_all add: occupancy_def occupancy_case_sum saddle_def
                            triangleOccupancy_neg)
     apply (simp_all add: trapezoidOccupancy_pair)
    done
qed

theorem occupancy_complement_witness:
  "occupancy (-1) 2 3 4 + occupancy 1 (-2) (-3) (-4) = 1"
  using occupancy_complement[of "-1" 2 3 4] by (simp add: saddle_def)

theorem occupancy_saddle_counterexample:
  "occupancy (-1) 1 1 (-1) + occupancy 1 (-1) (-1) 1 \<noteq> 1"
  by (simp add: occupancy_def occupancy_case_def triangleOccupancy_def)

subsection \<open>Bilinear sampling\<close>

lemma c_int_clamp:
  fixes n :: nat and a :: real
  assumes "2 \<le> n"
  defines "x \<equiv> min (max a 0) (real n - 1.001)"
  shows "0 \<le> c_int x" "c_int x \<le> int n - 2"
    "0 \<le> x - real_of_int (c_int x)" "x - real_of_int (c_int x) < 1"
proof -
  have x0: "0 \<le> x"
    using assms by (simp add: x_def)
  have x1: "x < real n - 1"
    by (simp add: x_def)
  have c: "c_int x = \<lfloor>x\<rfloor>"
    using x0 by (simp add: c_int_def)
  show "0 \<le> c_int x"
    using x0 by (simp add: c)
  have "\<lfloor>x\<rfloor> < int n - 1"
    using x1 by (simp add: floor_less_iff)
  then show "c_int x \<le> int n - 2"
    by (simp add: c)
  show "0 \<le> x - real_of_int (c_int x)"
    by (simp add: c)
  show "x - real_of_int (c_int x) < 1"
    unfolding c by linarith
qed

lemma idx_nat: "idx q (int x) (int y) = x + y * q_w q"
  by (simp add: idx_def nat_add_distrib nat_mult_distrib)

lemma grid_index_bound:
  fixes x y w h :: nat
  assumes "x < w" "y < h"
  shows "x + y * w < w * h"
proof -
  have "x + y * w < w + y * w"
    using assms by simp
  also have "\<dots> = Suc y * w"
    by simp
  also have "\<dots> \<le> h * w"
    using assms by (intro mult_le_mono1) simp
  finally show ?thesis
    by (simp add: mult.commute)
qed

lemma grid_index_inj:
  fixes x y x' y' w :: nat
  assumes "x < w" "x' < w" "x + y * w = x' + y' * w"
  shows "x = x' \<and> y = y'"
proof -
  have "x = (x + y * w) mod w" using assms(1) by simp
  also have "\<dots> = (x' + y' * w) mod w" by (simp only: assms(3))
  also have "\<dots> = x'" using assms(2) by simp
  finally have x: "x = x'" .
  have "y = (x + y * w) div w" using assms(1) by simp
  also have "\<dots> = (x' + y' * w) div w" by (simp only: assms(3))
  also have "\<dots> = y'" using assms(2) by simp
  finally have "y = y'" .
  then show ?thesis using x by simp
qed

lemma idx_bound:
  assumes "0 \<le> ix" "ix < int (q_w q)" "0 \<le> iy" "iy < int (q_h q)"
  shows "idx q ix iy < q_w q * q_h q"
proof -
  obtain x y where xy: "ix = int x" "iy = int y"
    using assms by (metis nonneg_int_cases)
  have "x < q_w q" "y < q_h q"
    using assms xy by simp_all
  then show ?thesis
    unfolding xy idx_nat by (rule grid_index_bound)
qed

lemma lerp1_expand:
  "lerp1 (lerp1 a b x) (lerp1 c d x) y =
     (1 - x)*(1 - y)*a + x*(1 - y)*b + (1 - x)*y*c + x*y*d"
  by (simp add: lerp1_def algebra_simps)

text \<open>
  Claim C10. On a grid of width and height at least 2, for every real input \<open>(x, y)\<close>,
  the base indices of \<open>lerp\<close> satisfy \<open>0 \<le> ix \<le> w - 2\<close> and \<open>0 \<le> iy \<le> h - 2\<close>, the
  four samples it reads are inside the \<open>src\<close> array, the fractions lie in \<open>[0, 1)\<close>, and
  the result is the combination of the four samples with the bilinear weights, which
  are non-negative and add up to 1.
\<close>

theorem lerp_in_bounds:
  assumes "2 \<le> q_w q" "2 \<le> q_h q" "length (src q) = q_w q * q_h q"
  shows "case lerp_coords q x y of (ix, iy, fx, fy) \<Rightarrow>
           0 \<le> ix \<and> ix \<le> int (q_w q) - 2 \<and> 0 \<le> iy \<and> iy \<le> int (q_h q) - 2 \<and>
           idx q ix iy < length (src q) \<and> idx q (ix + 1) iy < length (src q) \<and>
           idx q ix (iy + 1) < length (src q) \<and> idx q (ix + 1) (iy + 1) < length (src q) \<and>
           0 \<le> fx \<and> fx < 1 \<and> 0 \<le> fy \<and> fy < 1 \<and>
           (1 - fx)*(1 - fy) + fx*(1 - fy) + (1 - fx)*fy + fx*fy = 1 \<and>
           lerp q x y = (1 - fx)*(1 - fy) * at_c q ix iy + fx*(1 - fy) * at_c q (ix + 1) iy +
                        (1 - fx)*fy * at_c q ix (iy + 1) + fx*fy * at_c q (ix + 1) (iy + 1)"
proof -
  define cx where "cx = min (max (x - q_ox q) 0) (real (q_w q) - 1.001)"
  define cy where "cy = min (max (y - q_oy q) 0) (real (q_h q) - 1.001)"
  note bx = c_int_clamp[OF assms(1), of "x - q_ox q", folded cx_def]
  note by' = c_int_clamp[OF assms(2), of "y - q_oy q", folded cy_def]
  have co: "lerp_coords q x y =
      (c_int cx, c_int cy, cx - real_of_int (c_int cx), cy - real_of_int (c_int cy))"
    by (simp add: lerp_coords_def Let_def cx_def cy_def)
  have i: "idx q (c_int cx) (c_int cy) < length (src q)"
      "idx q (c_int cx + 1) (c_int cy) < length (src q)"
      "idx q (c_int cx) (c_int cy + 1) < length (src q)"
      "idx q (c_int cx + 1) (c_int cy + 1) < length (src q)"
    unfolding assms(3) using bx(1,2) by'(1,2) by (intro idx_bound; linarith)+
  have alg: "(1 - fx)*(1 - fy) + fx*(1 - fy) + (1 - fx)*fy + fx*fy = 1" for fx fy :: real
    by (simp add: algebra_simps)
  have l: "lerp q x y =
        (1 - (cx - real_of_int (c_int cx)))*(1 - (cy - real_of_int (c_int cy)))
          * at_c q (c_int cx) (c_int cy)
      + (cx - real_of_int (c_int cx))*(1 - (cy - real_of_int (c_int cy)))
          * at_c q (c_int cx + 1) (c_int cy)
      + (1 - (cx - real_of_int (c_int cx)))*(cy - real_of_int (c_int cy))
          * at_c q (c_int cx) (c_int cy + 1)
      + (cx - real_of_int (c_int cx))*(cy - real_of_int (c_int cy))
          * at_c q (c_int cx + 1) (c_int cy + 1)"
    by (simp only: lerp_def co Let_def prod.case lerp1_expand add_0_right)
  show ?thesis
    unfolding co prod.case
    using bx by' i alg l by blast
qed

theorem lerp_in_bounds_witness:
  "case lerp_coords (FluidQuantity_new 2 3 0.5 0.5 0.5) 100 (-3) of (ix, iy, fx, fy) \<Rightarrow>
     0 \<le> ix \<and> ix \<le> 0 \<and> 0 \<le> iy \<and> iy \<le> 1 \<and>
     lerp (FluidQuantity_new 2 3 0.5 0.5 0.5) 100 (-3) =
       (1 - fx)*(1 - fy) * at_c (FluidQuantity_new 2 3 0.5 0.5 0.5) ix iy +
       fx*(1 - fy) * at_c (FluidQuantity_new 2 3 0.5 0.5 0.5) (ix + 1) iy +
       (1 - fx)*fy * at_c (FluidQuantity_new 2 3 0.5 0.5 0.5) ix (iy + 1) +
       fx*fy * at_c (FluidQuantity_new 2 3 0.5 0.5 0.5) (ix + 1) (iy + 1)"
proof -
  have h: "2 \<le> q_w (FluidQuantity_new 2 3 0.5 0.5 0.5)"
    "2 \<le> q_h (FluidQuantity_new 2 3 0.5 0.5 0.5)"
    "length (src (FluidQuantity_new 2 3 0.5 0.5 0.5)) =
       q_w (FluidQuantity_new 2 3 0.5 0.5 0.5) * q_h (FluidQuantity_new 2 3 0.5 0.5 0.5)"
    by (simp_all add: FluidQuantity_new_def)
  have w: "int (q_w (FluidQuantity_new 2 3 0.5 0.5 0.5)) - 2 = 0"
    "int (q_h (FluidQuantity_new 2 3 0.5 0.5 0.5)) - 2 = 1"
    by (simp_all add: FluidQuantity_new_def)
  show ?thesis
    using lerp_in_bounds[OF h, of 100 "-3"] unfolding w
    by (auto split: prod.splits)
qed

subsection \<open>Solid fields\<close>

lemma triangleOccupancy_bounds:
  assumes "i \<le> 0" "0 \<le> o1" "0 \<le> o2"
  shows "0 \<le> triangleOccupancy o1 i o2" "triangleOccupancy o1 i o2 \<le> 1/2"
proof -
  have a: "- i \<le> o1 - i" "- i \<le> o2 - i" "0 \<le> - i" using assms by simp_all
  have m: "i * i \<le> (o1 - i) * (o2 - i)"
    using mult_mono[OF a(1) a(2)] a by simp
  have d: "0 \<le> (o1 - i) * (o2 - i)" using a by simp
  have q: "0 \<le> i * i / ((o1 - i) * (o2 - i))" using d by simp
  have q1: "i * i / ((o1 - i) * (o2 - i)) \<le> 1"
  proof (cases "(o1 - i) * (o2 - i) = 0")
    case True
    have "i * i / ((o1 - i) * (o2 - i)) = 0"
      unfolding True by (rule division_ring_divide_zero)
    then show ?thesis by linarith
  next
    case False
    then have "0 < (o1 - i) * (o2 - i)" using d by linarith
    then show ?thesis using m by (simp add: divide_le_eq_1)
  qed
  define X where "X = i * i / ((o1 - i) * (o2 - i))"
  have t: "triangleOccupancy o1 i o2 = 0.5 * X"
    by (simp add: triangleOccupancy_def X_def)
  show "0 \<le> triangleOccupancy o1 i o2" unfolding t using q[folded X_def] by simp
  show "triangleOccupancy o1 i o2 \<le> 1/2" unfolding t using q1[folded X_def] by simp
qed

lemma triangleOccupancy_bounds_pos:
  assumes "0 \<le> i" "o1 \<le> 0" "o2 \<le> 0"
  shows "0 \<le> triangleOccupancy o1 i o2" "triangleOccupancy o1 i o2 \<le> 1/2"
  using triangleOccupancy_bounds[of "-i" "-o1" "-o2"] assms by (simp_all add: triangleOccupancy_neg)

lemma fraction_bounds:
  fixes i :: real
  assumes "i < 0" "0 \<le> o1"
  shows "0 \<le> - i / (o1 - i)" "- i / (o1 - i) \<le> 1"
proof -
  have p: "0 < o1 - i" "- i \<le> o1 - i" "0 \<le> - i" using assms by simp_all
  show "0 \<le> - i / (o1 - i)" using p(1,3) by (intro divide_nonneg_pos)
  show "- i / (o1 - i) \<le> 1" using p(1,2) by (subst divide_le_eq_1_pos)
qed

lemma trapezoidOccupancy_bounds:
  assumes "i1 < 0" "i2 < 0" "0 \<le> o1" "0 \<le> o2"
  shows "0 \<le> trapezoidOccupancy o1 o2 i1 i2" "trapezoidOccupancy o1 o2 i1 i2 \<le> 1"
proof -
  define X Y where "X = - i1 / (o1 - i1)" and "Y = - i2 / (o2 - i2)"
  have t: "trapezoidOccupancy o1 o2 i1 i2 = 0.5 * (X + Y)"
    by (simp add: trapezoidOccupancy_def X_def Y_def)
  note f = fraction_bounds[OF assms(1,3), folded X_def] fraction_bounds[OF assms(2,4), folded Y_def]
  show "0 \<le> trapezoidOccupancy o1 o2 i1 i2" unfolding t using f by simp
  show "trapezoidOccupancy o1 o2 i1 i2 \<le> 1" unfolding t using f by simp
qed

lemma occupancy_range: "0 \<le> occupancy d11 d12 d21 d22 \<and> occupancy d11 d12 d21 d22 \<le> 1"
proof -
  have s: "d11 < 0 \<or> 0 \<le> d11" "d12 < 0 \<or> 0 \<le> d12" "d21 < 0 \<or> 0 \<le> d21" "d22 < 0 \<or> 0 \<le> d22"
    by linarith+
  have t1: "0 \<le> triangleOccupancy o1 i o2 \<and> triangleOccupancy o1 i o2 \<le> 1"
    if "i < 0" "0 \<le> o1" "0 \<le> o2" for o1 i o2
    using triangleOccupancy_bounds[of i o1 o2] that by simp
  have t2: "triangleOccupancy (-o1) (-i) (-o2) \<le> 1 \<and> 0 \<le> triangleOccupancy (-o1) (-i) (-o2)"
    if "0 \<le> i" "o1 < 0" "o2 < 0" for o1 i o2
    using triangleOccupancy_bounds[of "-i" "-o1" "-o2"] that by simp
  have t3: "0 \<le> triangleOccupancy o1 i o2 + triangleOccupancy p1 j p2 \<and>
            triangleOccupancy o1 i o2 + triangleOccupancy p1 j p2 \<le> 1"
    if "0 \<le> i" "o1 < 0" "o2 < 0" "0 \<le> j" "p1 < 0" "p2 < 0" for o1 i o2 p1 j p2
    using triangleOccupancy_bounds_pos[of i o1 o2] triangleOccupancy_bounds_pos[of j p1 p2] that by simp
  show ?thesis
    using s
    apply (elim disjE)
    apply (simp_all add: occupancy_def occupancy_case_sum trapezoidOccupancy_bounds t1 t2 t3)
    done
qed

lemma set_grid_cells: "set (grid_cells w h) = {0..<w} \<times> {0..<h}"
  by (auto simp: grid_cells_def)

lemma clamped_volume_ok:
  "volume_ok (let vol0 = 1 - occupancy a b c d in if vol0 < 0.01 then 0 else vol0)"
  using occupancy_range[of a b c d] by (simp add: volume_ok_def Let_def)

lemma fillSolidFields_cell_fields:
  "q_w (fillSolidFields_cell bodies q c) = q_w q"
  "q_h (fillSolidFields_cell bodies q c) = q_h q"
  "phi (fillSolidFields_cell bodies q c) = phi q"
  "src (fillSolidFields_cell bodies q c) = src q"
  "length (volume (fillSolidFields_cell bodies q c)) = length (volume q)"
  by (simp_all add: fillSolidFields_cell_def Let_def split: prod.splits)

lemma fillSolidFields_cell_volume:
  "\<exists>v. volume_ok v \<and>
       volume (fillSolidFields_cell bodies q (x, y)) = (volume q)[x + y * q_w q := v]"
proof -
  let ?p = "x + y * (q_w q + 1)"
  let ?v = "let vol0 = 1 - occupancy (phi q ! ?p) (phi q ! (?p + 1))
                (phi q ! (?p + q_w q + 1)) (phi q ! (?p + q_w q + 2))
            in if vol0 < 0.01 then 0 else vol0"
  have "volume (fillSolidFields_cell bodies q (x, y)) = (volume q)[x + y * q_w q := ?v]"
    by (simp add: fillSolidFields_cell_def Let_def split: prod.splits)
  then show ?thesis using clamped_volume_ok by blast
qed

lemma fillSolidFields_loop_fields:
  "q_w (foldl (fillSolidFields_cell bodies) q cs) = q_w q"
  "q_h (foldl (fillSolidFields_cell bodies) q cs) = q_h q"
  "src (foldl (fillSolidFields_cell bodies) q cs) = src q"
  "length (volume (foldl (fillSolidFields_cell bodies) q cs)) = length (volume q)"
  by (induction cs arbitrary: q) (simp_all add: fillSolidFields_cell_fields)

lemma fillSolidFields_loop_volume:
  assumes "i < length (volume q)"
      and "i \<in> (\<lambda>(x, y). x + y * q_w q) ` set cs \<or> volume_ok (volume q ! i)"
  shows "volume_ok (volume (foldl (fillSolidFields_cell bodies) q cs) ! i)"
  using assms
proof (induction cs rule: rev_induct)
  case Nil
  then show ?case by simp
next
  case (snoc c cs)
  let ?q = "foldl (fillSolidFields_cell bodies) q cs"
  obtain x y where c: "c = (x, y)" by (cases c)
  obtain v where v: "volume_ok v"
      "volume (fillSolidFields_cell bodies ?q (x, y)) = (volume ?q)[x + y * q_w q := v]"
    using fillSolidFields_cell_volume[of bodies ?q x y]
    by (auto simp: fillSolidFields_loop_fields)
  have len: "i < length (volume ?q)"
    using snoc.prems(1) by (simp add: fillSolidFields_loop_fields)
  show ?case
  proof (cases "i = x + y * q_w q")
    case True
    then show ?thesis using v len by (simp add: c)
  next
    case False
    then have "i \<in> (\<lambda>(x, y). x + y * q_w q) ` set cs \<or> volume_ok (volume q ! i)"
      using snoc.prems(2) by (auto simp: c)
    then have "volume_ok (volume ?q ! i)"
      using snoc.IH snoc.prems(1) by blast
    then show ?thesis using v False by (simp add: c)
  qed
qed

lemma grid_cells_cover:
  assumes "i < w * h"
  shows "i \<in> (\<lambda>(x, y). x + y * w) ` set (grid_cells w h)"
proof -
  have w: "0 < w" using assms by (cases w) simp_all
  have "i mod w < w" using w by simp
  moreover have "i div w < h" using assms w by (simp add: less_mult_imp_div_less mult.commute)
  moreover have "i = i mod w + (i div w) * w" by simp
  ultimately show ?thesis
    unfolding set_grid_cells by (intro image_eqI[where x = "(i mod w, i div w)"]) auto
qed

subsection \<open>Inflow\<close>

lemma c_int_floor: "0 \<le> x \<Longrightarrow> real_of_int z \<le> x \<Longrightarrow> x < real_of_int z + 1 \<Longrightarrow> c_int x = z"
  unfolding c_int_def by (simp add: floor_unique)

lemma c_int_ceiling: "x < 0 \<Longrightarrow> real_of_int z - 1 < x \<Longrightarrow> x \<le> real_of_int z \<Longrightarrow> c_int x = z"
  unfolding c_int_def by (simp add: ceiling_unique)

text \<open>
  Claim C6, evaluated on the code at a 4 by 2 density grid (\<open>hx = 0.5\<close>, all samples 0)
  and the call \<open>addInflow(0, -0.5, 2.5, 1, 1)\<close>. The index bounds are \<open>ix0 = 0\<close>,
  \<open>ix1 = 4\<close>, \<open>iy0 = -1\<close>, \<open>iy1 = 1\<close>, so the clipped rectangle of the claim holds
  the sample \<open>(2, 0)\<close>, whose pulse weight is 1; the source bounds the inner loop by the
  height, visits only \<open>x = 0, 1\<close>, and leaves the sample at 0.
\<close>

theorem addInflow_x_bound_bug:
  "src (addInflow 0 (-0.5) 2.5 1 1 (FluidQuantity_new 4 2 0.5 0.5 0.5)) ! 2 = 0 \<and>
   c_int (0 / 0.5 - 0.5) = 0 \<and> c_int (2.5 / 0.5 - 0.5) = 4 \<and>
   c_int (-0.5 / 0.5 - 0.5) = -1 \<and> c_int (1 / 0.5 - 0.5) = 1 \<and>
   cubicPulse (length_c ((2*(2 + 0.5)*0.5 - (0 + 2.5))/(2.5 - 0))
                        ((2*(0 + 0.5)*0.5 - (-0.5 + 1))/(1 - (-0.5)))) * 1 = 1"
proof -
  have c: "c_int (0 / 0.5 - 0.5) = 0" "c_int (2.5 / 0.5 - 0.5) = 4"
     "c_int (-0.5 / 0.5 - 0.5) = -1" "c_int (1 / 0.5 - 0.5) = 1"
    by (rule c_int_ceiling c_int_floor; simp)+
  have p: "cubicPulse (length_c ((2*(2 + 0.5)*0.5 - (0 + 2.5))/(2.5 - 0))
                        ((2*(0 + 0.5)*0.5 - (-0.5 + 1))/(1 - (-0.5)))) * 1 = 1"
    by (simp add: cubicPulse_def length_c_def)
  have r: "[0..<2::nat] = [0, 1]"
    by (simp add: upt_rec)
  have "src (addInflow 0 (-0.5) 2.5 1 1 (FluidQuantity_new 4 2 0.5 0.5 0.5)) ! 2 = 0"
    using c
    by (simp add: addInflow_def FluidQuantity_new_def r addInflow_sample_def Let_def)
  then show ?thesis using c p by blast
qed

subsection \<open>FLIP bookkeeping\<close>

lemma foldl_pointwise_length:
  "length (foldl (\<lambda>s i. s[i := f i (s ! i)]) xs is) = length xs"
  by (induction "is" arbitrary: xs) simp_all

lemma foldl_pointwise_nth:
  "foldl (\<lambda>s i. s[i := f i (s ! i)]) xs [0..<n] ! j =
     (if j < n \<and> j < length xs then f j (xs ! j) else xs ! j)"
proof (induction n arbitrary: j)
  case 0
  then show ?case by simp
next
  case (Suc n)
  let ?ys = "foldl (\<lambda>s i. s[i := f i (s ! i)]) xs [0..<n]"
  have len: "length ?ys = length xs" by (rule foldl_pointwise_length)
  have step: "foldl (\<lambda>s i. s[i := f i (s ! i)]) xs [0..<Suc n] = ?ys[n := f n (?ys ! n)]"
    by simp
  show ?case
  proof (cases "j = n")
    case True
    show ?thesis
    proof (cases "n < length xs")
      case True
      then show ?thesis using \<open>j = n\<close> len by (simp only: step Suc) simp
    next
      case False
      then have "?ys[n := f n (?ys ! n)] = ?ys" using len by (intro list_update_beyond) simp
      then show ?thesis using False \<open>j = n\<close> by (simp only: step Suc) simp
    qed
  next
    case False
    then show ?thesis by (simp only: step nth_list_update_neq[OF False[symmetric]] Suc) auto
  qed
qed

lemma double_update:
  "pr[i := pr[i := a] ! i + l] = pr[i := a + l]"
  by (cases "i < length pr") (simp_all add: list_update_beyond)

lemma map_length_update:
  "length v = length (xs ! t) \<Longrightarrow> map length (xs[t := v]) = map length xs"
proof (cases "t < length xs")
  case True
  assume "length v = length (xs ! t)"
  then have "map length (xs[t := v]) = (map length xs)[t := map length xs ! t]"
    using True by (simp add: map_update)
  then show ?thesis by (simp only: list_update_id)
next
  case False
  then show ?thesis by (simp add: list_update_beyond)
qed

lemma gridToParticles_particle_fields:
  "posX (gridToParticles_particle alpha qs t p i) = posX p"
  "posY (gridToParticles_particle alpha qs t p i) = posY p"
  "particleCount (gridToParticles_particle alpha qs t p i) = particleCount p"
  "length (properties (gridToParticles_particle alpha qs t p i)) = length (properties p)"
  by (simp_all add: gridToParticles_particle_def Let_def)

lemma gridToParticles_particle_properties:
  "properties (gridToParticles_particle alpha qs t p i) =
     (properties p)[t := (properties p ! t)
        [i := properties p ! t ! i * (1 - alpha) + lerp (qs ! t) (posX p ! i) (posY p ! i)]]"
  by (simp add: gridToParticles_particle_def Let_def double_update)

lemma gridToParticles_particle_lengths:
  "map length (properties (gridToParticles_particle alpha qs t p i)) = map length (properties p)"
  by (simp add: gridToParticles_particle_properties map_length_update)

lemma gridToParticles_inner_lengths:
  "map length (properties (foldl (gridToParticles_particle alpha qs t) p js)) =
     map length (properties p)"
  by (induction js arbitrary: p) (simp_all add: gridToParticles_particle_lengths)

lemma gridToParticles_outer_lengths:
  "map length (properties (foldl (\<lambda>p t. foldl (gridToParticles_particle alpha qs t) p
       [0..<particleCount p]) p ts)) = map length (properties p)"
  by (induction ts arbitrary: p) (simp_all add: gridToParticles_inner_lengths)

lemma gridToParticles_inner_fields:
  "posX (foldl (gridToParticles_particle alpha qs t) p js) = posX p"
  "posY (foldl (gridToParticles_particle alpha qs t) p js) = posY p"
  "particleCount (foldl (gridToParticles_particle alpha qs t) p js) = particleCount p"
  "length (properties (foldl (gridToParticles_particle alpha qs t) p js)) = length (properties p)"
  by (induction js arbitrary: p) (simp_all add: gridToParticles_particle_fields)

lemma gridToParticles_inner_properties:
  assumes "t < length (properties p)"
  shows "properties (foldl (gridToParticles_particle alpha qs t) p js) =
           (properties p)[t :=
              foldl (\<lambda>pr i. pr[i := pr ! i * (1 - alpha) + lerp (qs ! t) (posX p ! i) (posY p ! i)])
                (properties p ! t) js]"
  using assms
proof (induction js rule: rev_induct)
  case Nil
  then show ?case by simp
next
  case (snoc j js)
  show ?case
    using snoc.prems
    by (simp add: gridToParticles_particle_properties snoc.IH[OF snoc.prems]
        gridToParticles_inner_fields)
qed

lemma gridToParticles_inner_nth:
  assumes "t < length (properties p)"
  shows "properties (foldl (gridToParticles_particle alpha qs t) p [0..<n]) ! t' ! i =
           (if t' = t \<and> i < n \<and> i < length (properties p ! t)
            then properties p ! t ! i * (1 - alpha) + lerp (qs ! t) (posX p ! i) (posY p ! i)
            else properties p ! t' ! i)"
proof (cases "t' = t")
  case True
  show ?thesis
    unfolding gridToParticles_inner_properties[OF assms] True
    using assms
      foldl_pointwise_nth[of "\<lambda>i v. v * (1 - alpha) + lerp (qs ! t) (posX p ! i) (posY p ! i)"
        "properties p ! t" n i]
    by simp
next
  case False
  then show ?thesis
    unfolding gridToParticles_inner_properties[OF assms] by simp
qed

lemma gridToParticles_outer_fields:
  "posX (foldl (\<lambda>p t. foldl (gridToParticles_particle alpha qs t) p [0..<particleCount p]) p ts) = posX p"
  "posY (foldl (\<lambda>p t. foldl (gridToParticles_particle alpha qs t) p [0..<particleCount p]) p ts) = posY p"
  "particleCount (foldl (\<lambda>p t. foldl (gridToParticles_particle alpha qs t) p [0..<particleCount p]) p ts) = particleCount p"
  "length (properties (foldl (\<lambda>p t. foldl (gridToParticles_particle alpha qs t) p [0..<particleCount p]) p ts)) = length (properties p)"
  by (induction ts arbitrary: p) (simp_all add: gridToParticles_inner_fields)

lemma gridToParticles_outer_nth:
  assumes "m \<le> length (properties p)"
  shows "properties (foldl (\<lambda>p t. foldl (gridToParticles_particle alpha qs t) p [0..<particleCount p]) p [0..<m]) ! t ! i =
           (if t < m \<and> i < particleCount p \<and> i < length (properties p ! t)
            then properties p ! t ! i * (1 - alpha) + lerp (qs ! t) (posX p ! i) (posY p ! i)
            else properties p ! t ! i)"
  using assms
proof (induction m arbitrary: t i)
  case 0
  then show ?case by simp
next
  case (Suc m)
  let ?p = "foldl (\<lambda>p t. foldl (gridToParticles_particle alpha qs t) p [0..<particleCount p]) p [0..<m]"
  have m: "m < length (properties ?p)"
    using Suc.prems by (simp add: gridToParticles_outer_fields)
  note ih = Suc.IH[OF Suc_leD[OF Suc.prems]]
  have len: "length (properties ?p ! m) = length (properties p ! m)"
    using arg_cong[OF gridToParticles_outer_lengths[of alpha qs p "[0..<m]"],
        of "\<lambda>ls. ls ! m"] m
    by (simp add: gridToParticles_outer_fields)
  have step: "foldl (\<lambda>p t. foldl (gridToParticles_particle alpha qs t) p [0..<particleCount p]) p [0..<Suc m]
      = foldl (gridToParticles_particle alpha qs m) ?p [0..<particleCount p]"
    by (simp add: gridToParticles_outer_fields)
  show ?case
    unfolding step gridToParticles_inner_nth[OF m]
    by (auto simp: gridToParticles_outer_fields ih len less_Suc_eq)
qed


subsection \<open>Pressure matrix\<close>

lemma grid_cells_2_2: "grid_cells 2 2 = [(0,0),(1,0),(0,1),(1,1)]"
  by (simp add: grid_cells_def upt_rec)

lemma list_update_Cons_numeral:
  "(x # xs)[numeral k := v] = x # xs[pred_numeral k := v]"
  by (simp add: numeral_eq_Suc)

lemma replicate_numeral: "replicate (numeral k) x = x # replicate (pred_numeral k) x"
  by (simp add: numeral_eq_Suc)

lemma rest_grid_fields:
  "src rest_d = [0, 0, 0, 0]" "q_w rest_d = 2" "q_h rest_d = 2"
  "q_ox rest_d = 0.5" "q_oy rest_d = 0.5" "q_hx rest_d = 0.5"
  "phi rest_d = [0, 0, 0, 0, 0, 0, 0, 0, 0]"
  "cell rest_d = [CELL_FLUID, CELL_FLUID, CELL_FLUID, CELL_FLUID]"
  "body rest_d = [0, 0, 0, 0]" "volume rest_d = [1, 1, 1, 1]"
  "q_w rest_t = 2" "q_w rest_u = 3" "q_w rest_v = 2"
  "src rest_u = [0, 0, 0, 0, 0, 0]" "src rest_v = [0, 0, 0, 0, 0, 0]"
  "volume rest_u = [1, 1, 1, 1, 1, 1]" "volume rest_v = [1, 1, 1, 1, 1, 1]"
  by (simp_all add: rest_d_def rest_t_def rest_u_def rest_v_def FluidQuantity_new_def
      replicate_numeral)

lemma rest_solver_fields:
  "fs_w rest_solver = 2" "fs_h rest_solver = 2" "fs_hx rest_solver = 0.5"
  "fs_d rest_solver = rest_d" "fs_u rest_solver = rest_u" "fs_v rest_solver = rest_v"
  "uDensity rest_solver = [0, 0, 0, 0, 0, 0]" "vDensity rest_solver = [0, 0, 0, 0, 0, 0]"
  "densityAir rest_solver = 0.1" "densitySoot rest_solver = 0.25" "tAmb rest_solver = 294"
  "aDiag rest_solver = [0, 0, 0, 0]" "aPlusX rest_solver = [0, 0, 0, 0]"
  "aPlusY rest_solver = [0, 0, 0, 0]"
  by (simp_all add: rest_solver_def replicate_numeral)

lemma hot_column_fields:
  "fs_w hot_column_solver = 2" "fs_h hot_column_solver = 2" "fs_hx hot_column_solver = 0.5"
  "fs_d hot_column_solver = rest_d" "fs_u hot_column_solver = rest_u"
  "fs_v hot_column_solver = rest_v"
  "src (fs_t hot_column_solver) = [294, 588, 294, 588]" "q_w (fs_t hot_column_solver) = 2"
  "uDensity hot_column_solver = [0, 0, 0, 0, 0, 0]"
  "vDensity hot_column_solver = [0, 0, 0, 0, 0, 0]"
  "densityAir hot_column_solver = 0.1" "densitySoot hot_column_solver = 0.25"
  "tAmb hot_column_solver = 294"
  "aDiag hot_column_solver = [0, 0, 0, 0]" "aPlusX hot_column_solver = [0, 0, 0, 0]"
  "aPlusY hot_column_solver = [0, 0, 0, 0]"
  by (simp_all add: hot_column_solver_def rest_solver_fields rest_grid_fields)

lemma hot_column_densities: "vDensity (computeDensities hot_column_solver) = [0.05, 0.025, 0.1, 0.05, 0.05, 0.025]"
  "uDensity (computeDensities hot_column_solver) = [0.05, 0.075, 0.025, 0.05, 0.075, 0.025]"
  by (simp_all add: computeDensities_def hot_column_fields rest_grid_fields grid_cells_2_2 Let_def
       memset0_def at_c_def idx_def list_update_Cons_numeral replicate_numeral)


lemma computeDensities_fields:
  "fs_w (computeDensities s) = fs_w s" "fs_h (computeDensities s) = fs_h s"
  "fs_hx (computeDensities s) = fs_hx s" "fs_d (computeDensities s) = fs_d s"
  "fs_u (computeDensities s) = fs_u s" "fs_v (computeDensities s) = fs_v s"
  "aDiag (computeDensities s) = aDiag s" "aPlusX (computeDensities s) = aPlusX s"
  "aPlusY (computeDensities s) = aPlusY s"
  by (simp_all add: computeDensities_def Let_def split: prod.splits)

text \<open>
  Claim C2, evaluated on the code. In the 2 by 2 solver with a hot right column the face
  densities computed by \<open>computeDensities\<close> are 0.1 at the \<open>v\<close> face \<open>(0, 1)\<close>, index 2
  of \<open>vDensity\<close>, and 0.05 at index 3. For the fluid cell \<open>(0, 0)\<close>, whose neighbour
  \<open>(0, 1)\<close> is fluid, the claim gives \<open>aPlusY[0] = -0.0025 * 1 / 0.1 / 0.25 = -0.1\<close>;
  the code reads \<open>vDensity\<close> at \<open>_u->idx(0, 1) = 3\<close> and stores \<open>-0.2\<close>.
\<close>

theorem buildPressureMatrix_vDensity_index:
  "aPlusY (buildPressureMatrix 0.0025 (computeDensities hot_column_solver)) ! 0 = - 0.2 \<and>
   vDensity (computeDensities hot_column_solver) = [0.05, 0.025, 0.1, 0.05, 0.05, 0.025] \<and>
   idx (fs_u hot_column_solver) 0 1 = 3 \<and> idx (fs_v hot_column_solver) 0 1 = 2 \<and>
   - 0.0025 * volume_at (fs_v hot_column_solver) 0 1
       / vDensity (computeDensities hot_column_solver) ! idx (fs_v hot_column_solver) 0 1
       / (fs_hx hot_column_solver * fs_hx hot_column_solver) = - 0.1"
  by (simp add: buildPressureMatrix_def buildPressureMatrix_cell_def computeDensities_fields hot_column_densities
      hot_column_fields rest_grid_fields grid_cells_2_2 Let_def memset0_def volume_at_def idx_def
      list_update_Cons_numeral)

subsection \<open>Solid boundary stamping\<close>

lemma length_c_axis: "length_c x 0 = \<bar>x\<bar>" "length_c 0 y = \<bar>y\<bar>"
  by (simp_all add: length_c_def)

lemma grid_cells_3_3:
  "grid_cells 3 3 = [(0,0), (1,0), (2,0), (0,1), (1,1), (2,1), (0,2), (1,2), (2,2)]"
  by (simp add: grid_cells_def upt_rec)

lemma moving_box_distance:
  "distance moving_box x y =
     (let dx = \<bar>x - 0.25\<bar> - 0.3; dy = \<bar>y - 0.25\<bar> - 0.3
      in if dx \<ge> 0 \<or> dy \<ge> 0 then length_c (max dx 0) (max dy 0) else max dx dy)"
  by (simp add: distance_def moving_box_def rotate_c_def Let_def)

lemma min_distance_single: "min_distance [b] x y = distance b x y"
  by (simp add: min_distance_def)

lemma closest_body_single: "closest_body [b] x y = (0, distance b x y)"
  by (simp add: closest_body_def)

lemma moving_box_phi:
  "foldl (fillSolidFields_phi [moving_box] rest_d) [0, 0, 0, 0, 0, 0, 0, 0, 0] (grid_cells 3 3) =
     [-0.05, -0.05, 0.45, -0.05, -0.05, 0.45, 0.45, 0.45, length_c 0.45 0.45]"
  by (simp add: fillSolidFields_phi_def rest_grid_fields grid_cells_3_3 min_distance_single
      moving_box_distance Let_def list_update_Cons_numeral length_c_axis)

lemma fillSolidFields_cell_more_fields:
  "q_ox (fillSolidFields_cell bodies q c) = q_ox q"
  "q_oy (fillSolidFields_cell bodies q c) = q_oy q"
  "q_hx (fillSolidFields_cell bodies q c) = q_hx q"
  by (simp_all add: fillSolidFields_cell_def Let_def split: prod.splits)

lemma fillSolidFields_cell_single:
  "cell (fillSolidFields_cell [b] q (x, y)) =
     (cell q)[x + y * q_w q :=
       (if 1 - occupancy (phi q ! (x + y * (q_w q + 1))) (phi q ! (x + y * (q_w q + 1) + 1))
                 (phi q ! (x + y * (q_w q + 1) + q_w q + 1))
                 (phi q ! (x + y * (q_w q + 1) + q_w q + 2)) < 0.01
        then CELL_SOLID else CELL_FLUID)]"
  "body (fillSolidFields_cell [b] q (x, y)) = (body q)[x + y * q_w q := 0]"
  using occupancy_range[of "phi q ! (x + y * (q_w q + 1))" "phi q ! (x + y * (q_w q + 1) + 1)"
                 "phi q ! (x + y * (q_w q + 1) + q_w q + 1)"
                 "phi q ! (x + y * (q_w q + 1) + q_w q + 2)"]
  by (auto simp add: fillSolidFields_cell_def Let_def closest_body_single split: prod.splits)


lemma length_c_nonneg: "0 \<le> length_c x y"
  by (simp add: length_c_def)

lemma moving_box_occupancy:
  "occupancy (- (1/20)) (- (1/20)) (- (1/20)) (- (1/20)) = 1"
  "occupancy (- (1/20)) (9/20) (- (1/20)) (9/20) = 1/10"
  "occupancy (- (1/20)) (- (1/20)) (9/20) (9/20) = 1/10"
  "occupancy (- (1/20)) (9/20) (9/20) (length_c (9/20) (9/20)) = 1/200"
  using length_c_nonneg[of "9/20" "9/20"]
  by (simp_all add: occupancy_def occupancy_case_def triangleOccupancy_def
      trapezoidOccupancy_def not_less[symmetric])

lemma moving_box_cells:
  "cell (fillSolidFields [moving_box] rest_d) = [CELL_SOLID, CELL_FLUID, CELL_FLUID, CELL_FLUID]"
  "body (fillSolidFields [moving_box] rest_d) = [0, 0, 0, 0]"
  by (simp_all add: fillSolidFields_def Let_def rest_grid_fields moving_box_phi grid_cells_2_2
      fillSolidFields_cell_single fillSolidFields_cell_fields fillSolidFields_cell_more_fields
      list_update_Cons_numeral moving_box_occupancy)


lemma set_at_fields:
  "src (set_at q x y val) = (src q)[idx q x y := val]"
  "q_w (set_at q x y val) = q_w q"
  by (simp_all add: set_at_def)

lemma moving_box_velocity:
  "velocityX moving_box x y = 1" "velocityY moving_box x y = 0"
  by (simp_all add: velocityX_def velocityY_def moving_box_def)

lemma moving_box_solver_fields:
  "fs_w moving_box_solver = 2" "fs_h moving_box_solver = 2" "fs_hx moving_box_solver = 0.5"
  "fs_u moving_box_solver = rest_u" "fs_v moving_box_solver = rest_v"
  "fs_bodies moving_box_solver = [moving_box]"
  "cell (fs_d moving_box_solver) = [CELL_SOLID, CELL_FLUID, CELL_FLUID, CELL_FLUID]"
  "body (fs_d moving_box_solver) = [0, 0, 0, 0]"
  by (simp_all add: moving_box_solver_def rest_solver_fields moving_box_cells)

text \<open>
  Claim C3, evaluated on the code. In the 2 by 2 solver with the moving box the cell
  \<open>(0, 0)\<close> is solid and owned by the box, whose rigid velocity is \<open>(1, 0)\<close> everywhere.
  After \<open>setBoundaryCondition\<close> the \<open>v\<close> face \<open>(0, 1)\<close> of that cell, which is not on
  the outer ring, holds 1, the x-component, where the y-component at the face centre
  is 0.
\<close>

theorem setBoundaryCondition_v_face:
  "cell (fs_d moving_box_solver) ! 0 = CELL_SOLID \<and>
   at_c (fs_v (setBoundaryCondition moving_box_solver)) 0 1 = 1 \<and>
   velocityY (fs_bodies moving_box_solver ! (body (fs_d moving_box_solver) ! 0))
     ((0 + 0.5) * fs_hx moving_box_solver) ((0 + 1) * fs_hx moving_box_solver) = 0"
  by (simp add: setBoundaryCondition_def setBoundaryCondition_cell_def moving_box_solver_fields
      grid_cells_2_2 Let_def set_at_fields at_c_def idx_def rest_grid_fields moving_box_velocity
      list_update_Cons_numeral upt_rec)

subsection \<open>Seeding\<close>

lemma frand_range: "0 \<le> fst (frand s)" "fst (frand s) < 1"
proof -
  define w :: "32 word" where "w = and (s * 1103515245 + 12345) 0x7FFFFFFF"
  define n where "n = unat (drop_bit 8 w)"
  have f: "fst (frand s) = real n / 2 ^ 23"
    by (simp only: frand_def Let_def fst_conv w_def n_def)
  have "w \<le> 0x7FFFFFFF"
    unfolding w_def by (rule word_and_le1)
  then have "unat w \<le> 2147483647"
    by (simp add: word_le_nat_alt)
  then have "unat w div 256 < 2 ^ 23"
    by simp
  then have "n < 2 ^ 23"
    by (simp add: n_def drop_bit_eq_div unat_div)
  then have "real n < 2 ^ 23"
    by (metis of_nat_less_iff of_nat_numeral of_nat_power)
  then show "fst (frand s) < 1"
    unfolding f by simp
  show "0 \<le> fst (frand s)"
    unfolding f by simp
qed

lemma corner_box_distance:
  "distance corner_box x y =
     (let dx = \<bar>x - 0.75\<bar> - 0.3; dy = \<bar>y - 0.75\<bar> - 0.3
      in if dx \<ge> 0 \<or> dy \<ge> 0 then length_c (max dx 0) (max dy 0) else max dx dy)"
  by (simp add: distance_def corner_box_def rotate_c_def Let_def)

lemma corner_box_distance_inside:
  assumes "1/2 \<le> x" "x < 1" "1/2 \<le> y" "y < 1"
  shows "distance corner_box x y < 0"
proof -
  have "\<bar>x - 0.75\<bar> - 0.3 < 0" "\<bar>y - 0.75\<bar> - 0.3 < 0"
    using assms by (simp_all add: abs_if)
  then show ?thesis
    unfolding corner_box_distance Let_def by simp
qed

lemma corner_box_distance_outside:
  assumes "y \<le> 1/4"
  shows "\<not> distance corner_box x y < 0"
proof -
  have "\<bar>y - 0.75\<bar> - 0.3 \<ge> 0"
    using assms by (simp add: abs_if)
  then show ?thesis
    unfolding corner_box_distance Let_def using length_c_nonneg by (simp add: not_less)
qed

lemma corner_box_inside:
  assumes "p_bodies p = [corner_box]" "p_hx p = 1/2" "1 \<le> x" "x < 2" "1 \<le> y" "y < 2"
  shows "pointInBody p x y"
proof -
  have "distance corner_box (x * (1/2)) (y * (1/2)) < 0"
    using assms(3-6) by (intro corner_box_distance_inside) simp_all
  then show ?thesis
    unfolding pointInBody_def assms(1,2) by simp
qed

lemma corner_box_outside:
  assumes "p_bodies p = [corner_box]" "p_hx p = 1/2" "y \<le> 1/2"
  shows "\<not> pointInBody p x y"
proof -
  have "\<not> distance corner_box (x * (1/2)) (y * (1/2)) < 0"
    using assms(3) by (intro corner_box_distance_outside) simp
  then show ?thesis
    unfolding pointInBody_def assms(1,2) by simp
qed


lemma pointInBody_cong:
  "p_bodies p' = p_bodies p \<Longrightarrow> p_hx p' = p_hx p \<Longrightarrow> pointInBody p' x y = pointInBody p x y"
  by (simp add: pointInBody_def)

lemma seedParticles_attempt_accept:
  assumes "particleCount p \<noteq> maxParticles p"
      and "\<not> pointInBody p
              ((posX p)[particleCount p := real x + fst (frand (seed p))] ! (x + y * p_w p))
              ((posY p)[particleCount p := real y + fst (frand (snd (frand (seed p))))] ! (x + y * p_w p))"
  shows "particleCount (seedParticles_attempt qs (x, y) p) = particleCount p + 1"
    and "posX (seedParticles_attempt qs (x, y) p) =
           (posX p)[particleCount p := real x + fst (frand (seed p))]"
    and "posY (seedParticles_attempt qs (x, y) p) =
           (posY p)[particleCount p := real y + fst (frand (snd (frand (seed p))))]"
    and "seed (seedParticles_attempt qs (x, y) p) = snd (frand (snd (frand (seed p))))"
    and "p_bodies (seedParticles_attempt qs (x, y) p) = p_bodies p"
    and "p_hx (seedParticles_attempt qs (x, y) p) = p_hx p"
    and "p_w (seedParticles_attempt qs (x, y) p) = p_w p"
    and "maxParticles (seedParticles_attempt qs (x, y) p) = maxParticles p"
  using assms
  by (simp_all add: seedParticles_attempt_def Let_def pointInBody_def case_prod_beta)

lemma seed_pool_fields:
  "particleCount seed_pool = 9" "maxParticles seed_pool = 48" "p_w seed_pool = 2"
  "p_h seed_pool = 2" "p_hx seed_pool = 1/2" "p_bodies seed_pool = [corner_box]"
  "counts seed_pool = [3, 3, 3, 0]" "length (posX seed_pool) = 48" "length (posY seed_pool) = 48"
  "posX seed_pool ! 3 = 3/2" "posY seed_pool ! 3 = 1/2"
  "posX seed_pool ! Suc (Suc (Suc 0)) = 3/2" "posY seed_pool ! Suc (Suc (Suc 0)) = 1/2"
  by (simp_all add: seed_pool_def)

lemma seedParticles_attempt_counts:
  "counts (seedParticles_attempt qs c p) = counts p"
  by (simp add: seedParticles_attempt_def Let_def case_prod_beta)

lemma seed_pool_unfold:
  "seedParticles qs seed_pool =
     seedParticles_attempt qs (1, 1) (seedParticles_attempt qs (1, 1)
       (seedParticles_attempt qs (1, 1) seed_pool))"
  by (simp add: seedParticles_def seed_pool_fields grid_cells_2_2 MinPerCell_def upt_rec)


lemma corner_box_distance_outside_x:
  assumes "x \<le> 1/4"
  shows "\<not> distance corner_box x y < 0"
proof -
  have "\<bar>x - 0.75\<bar> - 0.3 \<ge> 0"
    using assms by (simp add: abs_if)
  then show ?thesis
    unfolding corner_box_distance Let_def using length_c_nonneg by (simp add: not_less)
qed

lemma corner_box_outside_x:
  assumes "p_bodies p = [corner_box]" "p_hx p = 1/2" "x \<le> 1/2"
  shows "\<not> pointInBody p x y"
proof -
  have "\<not> distance corner_box (x * (1/2)) (y * (1/2)) < 0"
    using assms(3) by (intro corner_box_distance_outside_x) simp
  then show ?thesis
    unfolding pointInBody_def assms(1,2) by simp
qed

lemma seed_pool_positions:
  "\<forall>i<9. posX seed_pool ! i \<le> 1/2 \<or> posY seed_pool ! i \<le> 1/2"
  by (auto simp: seed_pool_def nth_append nth_Cons')

lemma corner_attempt:
  assumes "p_bodies p = [corner_box]" "p_hx p = 1/2" "p_w p = 2"
      and "particleCount p \<noteq> maxParticles p" "particleCount p \<noteq> 3"
      and "posY p ! 3 \<le> 1/2"
  shows "particleCount (seedParticles_attempt qs (1, 1) p) = particleCount p + 1"
    and "posX (seedParticles_attempt qs (1, 1) p) =
           (posX p)[particleCount p := 1 + fst (frand (seed p))]"
    and "posY (seedParticles_attempt qs (1, 1) p) =
           (posY p)[particleCount p := 1 + fst (frand (snd (frand (seed p))))]"
    and "seed (seedParticles_attempt qs (1, 1) p) = snd (frand (snd (frand (seed p))))"
    and "p_bodies (seedParticles_attempt qs (1, 1) p) = [corner_box]"
    and "p_hx (seedParticles_attempt qs (1, 1) p) = 1/2"
    and "p_w (seedParticles_attempt qs (1, 1) p) = 2"
    and "maxParticles (seedParticles_attempt qs (1, 1) p) = maxParticles p"
proof -
  have i: "1 + 1 * p_w p = 3"
    by (simp add: assms(3))
  have y: "(posY p)[particleCount p := real 1 + fst (frand (snd (frand (seed p))))] !
             (1 + 1 * p_w p) \<le> 1/2"
    unfolding i using assms(5,6) by simp
  have a: "\<not> pointInBody p
              ((posX p)[particleCount p := real 1 + fst (frand (seed p))] ! (1 + 1 * p_w p))
              ((posY p)[particleCount p := real 1 + fst (frand (snd (frand (seed p))))] !
                 (1 + 1 * p_w p))"
    using assms(1,2) y by (rule corner_box_outside)
  note f = seedParticles_attempt_accept[OF assms(4) a, of qs]
  show "particleCount (seedParticles_attempt qs (1, 1) p) = particleCount p + 1"
    using f(1) .
  show "posX (seedParticles_attempt qs (1, 1) p) =
           (posX p)[particleCount p := 1 + fst (frand (seed p))]"
    using f(2) by simp
  show "posY (seedParticles_attempt qs (1, 1) p) =
           (posY p)[particleCount p := 1 + fst (frand (snd (frand (seed p))))]"
    using f(3) by simp
  show "seed (seedParticles_attempt qs (1, 1) p) = snd (frand (snd (frand (seed p))))"
    using f(4) .
  show "p_bodies (seedParticles_attempt qs (1, 1) p) = [corner_box]"
    using f(5) assms(1) by simp
  show "p_hx (seedParticles_attempt qs (1, 1) p) = 1/2"
    using f(6) assms(2) by simp
  show "p_w (seedParticles_attempt qs (1, 1) p) = 2"
    using f(7) assms(3) by simp
  show "maxParticles (seedParticles_attempt qs (1, 1) p) = maxParticles p"
    using f(8) .
qed

text \<open>
  Claim C7, evaluated on the code. In the pool above no active particle is inside the
  body. \<open>seedParticles\<close> makes three attempts in the covered cell \<open>(1, 1)\<close>, whose index
  is 3. Every candidate lies inside the body, but the test reads the position of
  particle 3, which is outside, so all three candidates are added: the count becomes
  12 and particle 9 is inside the body.
\<close>

theorem seedParticles_wrong_slot:
  "list_all (\<lambda>i. \<not> pointInBody seed_pool (posX seed_pool ! i) (posY seed_pool ! i))
     [0..<particleCount seed_pool] \<and>
   particleCount (seedParticles [rest_d, rest_t, rest_u, rest_v] seed_pool) = 12 \<and>
   pointInBody (seedParticles [rest_d, rest_t, rest_u, rest_v] seed_pool)
     (posX (seedParticles [rest_d, rest_t, rest_u, rest_v] seed_pool) ! 9)
     (posY (seedParticles [rest_d, rest_t, rest_u, rest_v] seed_pool) ! 9)"
proof -
  define qs where "qs = [rest_d, rest_t, rest_u, rest_v]"
  define p1 where "p1 = seedParticles_attempt qs (1, 1) seed_pool"
  define p2 where "p2 = seedParticles_attempt qs (1, 1) p1"
  define p3 where "p3 = seedParticles_attempt qs (1, 1) p2"
  have u: "seedParticles [rest_d, rest_t, rest_u, rest_v] seed_pool = p3"
    unfolding p3_def p2_def p1_def qs_def by (rule seed_pool_unfold)
  have f1: "particleCount p1 = 10" "maxParticles p1 = 48"
    "p_bodies p1 = [corner_box]" "p_hx p1 = 1/2" "p_w p1 = 2"
    "posX p1 = (posX seed_pool)[9 := 1 + fst (frand (seed seed_pool))]"
    "posY p1 = (posY seed_pool)[9 := 1 + fst (frand (snd (frand (seed seed_pool))))]"
    unfolding p1_def
    using corner_attempt[of seed_pool qs] by (simp_all add: seed_pool_fields)
  have y1: "posY p1 ! 3 \<le> 1/2"
    by (simp add: f1 seed_pool_fields)
  have f2: "particleCount p2 = 11" "maxParticles p2 = 48"
    "p_bodies p2 = [corner_box]" "p_hx p2 = 1/2" "p_w p2 = 2"
    "posX p2 = (posX p1)[10 := 1 + fst (frand (seed p1))]"
    "posY p2 = (posY p1)[10 := 1 + fst (frand (snd (frand (seed p1))))]"
    unfolding p2_def
    using corner_attempt[of p1 qs] y1 by (simp_all add: f1)
  have y2: "posY p2 ! 3 \<le> 1/2"
    using y1 by (simp add: f2)
  have f3: "particleCount p3 = 12"
    "p_bodies p3 = [corner_box]" "p_hx p3 = 1/2"
    "posX p3 = (posX p2)[11 := 1 + fst (frand (seed p2))]"
    "posY p3 = (posY p2)[11 := 1 + fst (frand (snd (frand (seed p2))))]"
    unfolding p3_def
    using corner_attempt[of p2 qs] y2 by (simp_all add: f2)
  have x: "posX p3 ! 9 = 1 + fst (frand (seed seed_pool))"
    by (simp add: f3 f2 f1 seed_pool_fields)
  have y: "posY p3 ! 9 = 1 + fst (frand (snd (frand (seed seed_pool))))"
    by (simp add: f3 f2 f1 seed_pool_fields)
  have "pointInBody p3 (posX p3 ! 9) (posY p3 ! 9)"
    unfolding x y using frand_range
    by (intro corner_box_inside) (simp_all add: f3)
  moreover have "\<forall>i<particleCount seed_pool.
      \<not> pointInBody seed_pool (posX seed_pool ! i) (posY seed_pool ! i)"
    using seed_pool_positions corner_box_outside corner_box_outside_x
    by (metis seed_pool_fields(1,5,6))
  ultimately show ?thesis
    unfolding u using f3(1) by (simp add: list_all_iff)
qed

subsection \<open>Advection\<close>

lemma lerp1_const: "lerp1 c c x = c"
  by (simp add: lerp1_def algebra_simps)

lemma lerp_const:
  assumes "2 \<le> q_w q" "2 \<le> q_h q" "src q = replicate (q_w q * q_h q) c"
  shows "lerp q x y = c"
proof -
  define cx where "cx = min (max (x - q_ox q) 0) (real (q_w q) - 1.001)"
  define cy where "cy = min (max (y - q_oy q) 0) (real (q_h q) - 1.001)"
  note bx = c_int_clamp[OF assms(1), of "x - q_ox q", folded cx_def]
  note by' = c_int_clamp[OF assms(2), of "y - q_oy q", folded cy_def]
  have co: "lerp_coords q x y =
      (c_int cx, c_int cy, cx - real_of_int (c_int cx), cy - real_of_int (c_int cy))"
    by (simp add: lerp_coords_def Let_def cx_def cy_def)
  have i: "idx q (c_int cx) (c_int cy) < q_w q * q_h q"
      "idx q (c_int cx + 1) (c_int cy) < q_w q * q_h q"
      "idx q (c_int cx) (c_int cy + 1) < q_w q * q_h q"
      "idx q (c_int cx + 1) (c_int cy + 1) < q_w q * q_h q"
    using bx(1,2) by'(1,2) by (intro idx_bound; linarith)+
  have a: "at_c q (c_int cx) (c_int cy) = c" "at_c q (c_int cx + 1) (c_int cy) = c"
      "at_c q (c_int cx) (c_int cy + 1) = c" "at_c q (c_int cx + 1) (c_int cy + 1) = c"
    using i by (simp_all add: at_c_def assms(3))
  show ?thesis
    by (simp add: lerp_def co a lerp1_const)
qed

lemma stream_fields:
  "lerp stream_u x y = 36" "lerp rest_v x y = 0"
  by (rule lerp_const; simp add: stream_u_def rest_u_def rest_v_def FluidQuantity_new_def)+

lemma drift_pool_fields:
  "particleCount drift_pool = 1" "p_w drift_pool = 2" "p_h drift_pool = 2"
  "p_hx drift_pool = 1/2" "p_bodies drift_pool = [corner_box]"
  "posX drift_pool ! 0 = 17/20" "posY drift_pool ! 0 = 3/2"
  by (simp_all add: drift_pool_def)

lemma drift_rungeKutta3:
  "rungeKutta3 drift_pool (1/400) stream_u rest_v (17/20) (3/2) = (99/100, 3/2)"
  by (simp add: rungeKutta3_def stream_fields drift_pool_fields Let_def)

lemma corner_box_distance_at: "distance corner_box (99/200) (3/4) = - (9/200)"
  by (simp add: corner_box_distance Let_def)

lemma drift_backProject: "backProject drift_pool (99/100) (3/2) = (99/100, 3/2)"
  by (simp add: backProject_def drift_pool_fields corner_box_distance_at Let_def)


lemma drift_advect:
  "posX (advect (1/400) stream_u rest_v drift_pool) = (posX drift_pool)[0 := 99/100]"
  "posY (advect (1/400) stream_u rest_v drift_pool) = (posY drift_pool)[0 := 3/2]"
  "p_bodies (advect (1/400) stream_u rest_v drift_pool) = [corner_box]"
  "p_hx (advect (1/400) stream_u rest_v drift_pool) = 1/2"
  by (simp_all add: advect_def drift_pool_fields drift_rungeKutta3 drift_backProject)

text \<open>
  Claim C4, evaluated on the code. The particle at \<open>(0.85, 1.5)\<close> is outside the body.
  With the uniform \<open>u = 36\<close>, \<open>v = 0\<close> and the timestep 0.0025 the Runge-Kutta step
  moves it to \<open>(0.99, 1.5)\<close>, where the signed distance of the body is \<open>-0.045\<close>.
  \<open>backProject\<close> acts only on a distance below \<open>-1\<close>, so it returns the position
  unchanged, the clamp keeps it, and after \<open>advect\<close> the particle is inside the body.
\<close>

theorem advect_leaves_particle_inside:
  "\<not> pointInBody drift_pool (posX drift_pool ! 0) (posY drift_pool ! 0) \<and>
   posX (advect 0.0025 stream_u rest_v drift_pool) ! 0 = 0.99 \<and>
   posY (advect 0.0025 stream_u rest_v drift_pool) ! 0 = 1.5 \<and>
   distance corner_box (0.99 * 0.5) (1.5 * 0.5) = - 0.045 \<and>
   pointInBody (advect 0.0025 stream_u rest_v drift_pool)
     (posX (advect 0.0025 stream_u rest_v drift_pool) ! 0)
     (posY (advect 0.0025 stream_u rest_v drift_pool) ! 0)"
proof -
  have t: "(0.0025::real) = 1/400"
    by simp
  have l: "0 < length (posX drift_pool)" "0 < length (posY drift_pool)"
    by (simp_all add: drift_pool_def)
  have a: "\<not> pointInBody drift_pool (posX drift_pool ! 0) (posY drift_pool ! 0)"
    by (simp add: pointInBody_def drift_pool_fields corner_box_distance Let_def length_c_axis)
  have b: "pointInBody (advect (1/400) stream_u rest_v drift_pool) (99/100) (3/2)"
    by (simp add: pointInBody_def drift_advect corner_box_distance_at)
  show ?thesis
    unfolding t using a b l by (simp add: drift_advect corner_box_distance_at)
qed

subsection \<open>Extrapolation on a grid without solid cells\<close>





lemma foldl_mark_length:
  "length (foldl (\<lambda>m k. m[f k := c, g k := c]) m ks) = length m"
  by (induction ks arbitrary: m) simp_all



lemma fillSolidMask_cell_update:
  "\<exists>v. fillSolidMask_cell q m (x, y) = m[x + y * q_w q := v]"
  by (auto simp: fillSolidMask_cell_def Let_def)

lemma fillSolidMask_loop_length:
  "length (foldl (fillSolidMask_cell q) m cs) = length m"
proof (induction cs arbitrary: m)
  case Nil
  then show ?case by simp
next
  case (Cons c cs)
  obtain x y where c: "c = (x, y)" by (cases c)
  obtain v where "fillSolidMask_cell q m (x, y) = m[x + y * q_w q := v]"
    using fillSolidMask_cell_update by blast
  then show ?case by (simp add: Cons.IH c)
qed


lemma fillSolidMask_fields:
  "cell (fillSolidMask q) = cell q" "src (fillSolidMask q) = src q"
  "q_w (fillSolidMask q) = q_w q" "q_h (fillSolidMask q) = q_h q"
  "normalX (fillSolidMask q) = normalX q" "normalY (fillSolidMask q) = normalY q"
  "old (fillSolidMask q) = old q"
  "length (mask (fillSolidMask q)) = length (mask q)"
  by (simp_all add: fillSolidMask_def Let_def fillSolidMask_loop_length foldl_mark_length)
















lemma freeSolidNeighbour_frame:
  "grid_frame (fst (freeSolidNeighbour i m s)) = grid_frame (fst s)"
  by (cases s) (simp add: freeSolidNeighbour_def grid_frame_def Let_def)












lemma foldl_id: "(\<And>x. x \<in> set xs \<Longrightarrow> f s x = s) \<Longrightarrow> foldl f s xs = s"
  by (induction xs) simp_all











subsection \<open>Particle to grid transfer on grids without solid cells\<close>












subsection \<open>Grids that the pressure solve leaves alone\<close>



















lemma fillSolidMask_shape: "grid_shape (fillSolidMask q) = grid_shape q"
  by (simp add: grid_shape_def fillSolidMask_fields)

lemma diff_shape: "grid_shape (diff a q) = grid_shape q"
  by (simp add: grid_shape_def diff_def)

subsection \<open>The step function on a solver without bodies\<close>





subsection \<open>A freshly constructed solver\<close>









subsection \<open>The first step of a solver at rest\<close>























subsection \<open>Volume fractions of the cells\<close>

lemma foldl_write_length: "length (foldl (\<lambda>p c. p[g c := v c]) p cs) = length p"
  by (induction cs arbitrary: p) simp_all

lemma foldl_write_nth:
  assumes "j < length p" "c \<in> set cs" "g c = j" "\<forall>c'\<in>set cs. g c' = j \<longrightarrow> v c' = v c"
  shows "foldl (\<lambda>p c. p[g c := v c]) p cs ! j = v c"
  using assms(2,4)
proof (induction cs rule: rev_induct)
  case Nil
  then show ?case by simp
next
  case (snoc a cs)
  let ?r = "foldl (\<lambda>p c. p[g c := v c]) p cs"
  have len: "j < length ?r" using assms(1) by (simp only: foldl_write_length)
  have step: "foldl (\<lambda>p c. p[g c := v c]) p (cs @ [a]) = ?r[g a := v a]"
    by simp
  show ?case
  proof (cases "g a = j")
    case True
    have "a \<in> set (cs @ [a])" by simp
    then have "v a = v c" using snoc.prems(2) True by blast
    then show ?thesis
      unfolding step True using len by (simp only: nth_list_update_eq)
  next
    case False
    have "c \<noteq> a" using False assms(3) by blast
    then have c: "c \<in> set cs" using snoc.prems(1) by simp
    have "\<forall>c'\<in>set cs. g c' = j \<longrightarrow> v c' = v c"
      using snoc.prems(2) by simp
    then have r: "?r ! j = v c" using snoc.IH c by blast
    have "?r[g a := v a] ! j = ?r ! j"
      by (rule nth_list_update_neq[OF False])
    then show ?thesis
      unfolding step using r by (simp only:)
  qed
qed

lemma fillSolidFields_loop_phi:
  "phi (foldl (fillSolidFields_cell bodies) q cs) = phi q"
  by (induction cs arbitrary: q) (simp_all add: fillSolidFields_cell_fields)

lemma fillSolidFields_loop_volume_fold:
  "volume (foldl (fillSolidFields_cell bodies) q cs) =
     foldl (\<lambda>vs c. vs[(case c of (x, y) \<Rightarrow> x + y * q_w q) :=
                       (case c of (x, y) \<Rightarrow>
                          let i = x + y * (q_w q + 1);
                              vol0 = 1 - occupancy (phi q ! i) (phi q ! (i + 1))
                                       (phi q ! (i + q_w q + 1)) (phi q ! (i + q_w q + 2))
                          in if vol0 < 0.01 then 0 else vol0)])
           (volume q) cs"
proof (induction cs rule: rev_induct)
  case Nil
  then show ?case by simp
next
  case (snoc c cs)
  obtain x y where c: "c = (x, y)" by (cases c)
  let ?Q = "foldl (fillSolidFields_cell bodies) q cs"
  have "volume (fillSolidFields_cell bodies ?Q (x, y)) =
          (volume ?Q)[x + y * q_w ?Q :=
             (let i = x + y * (q_w ?Q + 1);
                  vol0 = 1 - occupancy (phi ?Q ! i) (phi ?Q ! (i + 1))
                           (phi ?Q ! (i + q_w ?Q + 1)) (phi ?Q ! (i + q_w ?Q + 2))
              in if vol0 < 0.01 then 0 else vol0)]"
    by (simp add: fillSolidFields_cell_def Let_def split: prod.splits)
  then show ?case
    by (simp add: c snoc.IH fillSolidFields_loop_phi fillSolidFields_loop_fields)
qed

lemma fillSolidFields_volume_nth:
  assumes "bodies \<noteq> []" "length (volume q) = q_w q * q_h q" "x < q_w q" "y < q_h q"
  shows "volume (fillSolidFields bodies q) ! (x + y * q_w q) =
           (let p = phi (fillSolidFields bodies q); i = x + y * (q_w q + 1);
                vol0 = 1 - occupancy (p ! i) (p ! (i + 1)) (p ! (i + q_w q + 1)) (p ! (i + q_w q + 2))
            in if vol0 < 0.01 then 0 else vol0)"
proof -
  define q1 where "q1 = q\<lparr>phi := foldl (fillSolidFields_phi bodies q) (phi q)
                          (grid_cells (q_w q + 1) (q_h q + 1))\<rparr>"
  define g where "g = (\<lambda>c :: nat \<times> nat. case c of (x, y) \<Rightarrow> x + y * q_w q1)"
  define v where "v = (\<lambda>c :: nat \<times> nat. case c of (x, y) \<Rightarrow>
                          let i = x + y * (q_w q1 + 1);
                              vol0 = 1 - occupancy (phi q1 ! i) (phi q1 ! (i + 1))
                                       (phi q1 ! (i + q_w q1 + 1)) (phi q1 ! (i + q_w q1 + 2))
                          in if vol0 < 0.01 then 0 else vol0)"
  have e: "fillSolidFields bodies q = foldl (fillSolidFields_cell bodies) q1 (grid_cells (q_w q) (q_h q))"
    using assms(1) by (simp add: fillSolidFields_def Let_def q1_def)
  have f: "q_w q1 = q_w q" "volume q1 = volume q"
    by (simp_all add: q1_def)
  have p: "phi (fillSolidFields bodies q) = phi q1"
    by (simp add: e fillSolidFields_loop_phi)
  have vf: "volume (fillSolidFields bodies q) =
              foldl (\<lambda>vs c. vs[g c := v c]) (volume q1) (grid_cells (q_w q) (q_h q))"
    unfolding e g_def v_def by (rule fillSolidFields_loop_volume_fold)
  have j: "x + y * q_w q < length (volume q1)"
    using assms(2-4) by (simp add: f grid_index_bound)
  have inj: "\<forall>c'\<in>set (grid_cells (q_w q) (q_h q)). g c' = x + y * q_w q \<longrightarrow> v c' = v (x, y)"
  proof (intro ballI impI)
    fix c' assume c': "c' \<in> set (grid_cells (q_w q) (q_h q))" "g c' = x + y * q_w q"
    obtain x' y' where xy: "c' = (x', y')" by (cases c')
    have x': "x' < q_w q" using c'(1) by (simp add: xy set_grid_cells)
    have eq: "x' + y' * q_w q = x + y * q_w q"
      using c'(2) by (simp only: xy g_def f prod.case)
    have "x' = x \<and> y' = y"
      by (rule grid_index_inj[OF x' assms(3) eq])
    then show "v c' = v (x, y)" by (simp only: xy)
  qed
  have m: "(x, y) \<in> set (grid_cells (q_w q) (q_h q))"
    using assms(3,4) by (simp add: set_grid_cells)
  have gj: "g (x, y) = x + y * q_w q"
    by (simp add: g_def f)
  have "foldl (\<lambda>vs c. vs[g c := v c]) (volume q1) (grid_cells (q_w q) (q_h q)) ! (x + y * q_w q)
          = v (x, y)"
    by (rule foldl_write_nth[OF j m gj inj])
  then show ?thesis
    by (simp add: vf p v_def f Let_def)
qed

lemma fillSolidFields_phi_nth:
  assumes "bodies \<noteq> []" "length (phi q) = (q_w q + 1) * (q_h q + 1)" "ix \<le> q_w q" "iy \<le> q_h q"
  shows "phi (fillSolidFields bodies q) ! (ix + iy * (q_w q + 1)) =
           min_distance bodies ((real ix + q_ox q - 0.5) * q_hx q)
                               ((real iy + q_oy q - 0.5) * q_hx q)"
proof -
  define g where "g = (\<lambda>c :: nat \<times> nat. case c of (ix, iy) \<Rightarrow> ix + iy * (q_w q + 1))"
  define v where "v = (\<lambda>c :: nat \<times> nat. case c of (ix, iy) \<Rightarrow>
                         min_distance bodies ((real ix + q_ox q - 0.5) * q_hx q)
                                             ((real iy + q_oy q - 0.5) * q_hx q))"
  have s: "fillSolidFields_phi bodies q = (\<lambda>p c. p[g c := v c])"
    by (intro ext) (simp add: fillSolidFields_phi_def g_def v_def Let_def split: prod.splits)
  have p: "phi (fillSolidFields bodies q) =
             foldl (\<lambda>p c. p[g c := v c]) (phi q) (grid_cells (q_w q + 1) (q_h q + 1))"
    using assms(1) by (simp add: fillSolidFields_def Let_def fillSolidFields_loop_phi s)
  have j: "ix + iy * (q_w q + 1) < length (phi q)"
    unfolding assms(2) using assms(3,4) by (intro grid_index_bound) simp_all
  have inj: "\<forall>c'\<in>set (grid_cells (q_w q + 1) (q_h q + 1)).
               g c' = ix + iy * (q_w q + 1) \<longrightarrow> v c' = v (ix, iy)"
  proof (intro ballI impI)
    fix c' assume c': "c' \<in> set (grid_cells (q_w q + 1) (q_h q + 1))" "g c' = ix + iy * (q_w q + 1)"
    obtain x' y' where xy: "c' = (x', y')" by (cases c')
    have x': "x' < q_w q + 1" using c'(1) by (simp add: xy set_grid_cells)
    have ix: "ix < q_w q + 1" using assms(3) by simp
    have eq: "x' + y' * (q_w q + 1) = ix + iy * (q_w q + 1)"
      using c'(2) by (simp only: xy g_def prod.case)
    have "x' = ix \<and> y' = iy"
      by (rule grid_index_inj[OF x' ix eq])
    then show "v c' = v (ix, iy)" by (simp only: xy)
  qed
  have m: "(ix, iy) \<in> set (grid_cells (q_w q + 1) (q_h q + 1))"
    using assms(3,4) by (simp add: set_grid_cells)
  have gj: "g (ix, iy) = ix + iy * (q_w q + 1)"
    by (simp add: g_def)
  have "foldl (\<lambda>p c. p[g c := v c]) (phi q) (grid_cells (q_w q + 1) (q_h q + 1)) !
          (ix + iy * (q_w q + 1)) = v (ix, iy)"
    by (rule foldl_write_nth[OF j m gj inj])
  then show ?thesis
    by (simp add: p v_def)
qed

text \<open>
  Claim C9. After \<open>fillSolidFields\<close> every entry of the volume array is 0 or lies in
  \<open>[0.01, 1]\<close>. With at least one body the entry of every cell \<open>(x, y)\<close> is
  \<open>1 - occupancy\<close> of the four corner distances of the cell, replaced by 0 when it is
  below 0.01, and each corner distance is the least distance to a body at that corner;
  the occupancy of any quartet lies in \<open>[0, 1]\<close>. With no bodies the call changes
  nothing, so the volumes keep what they had, which is 1 after the constructor.
\<close>

theorem fillSolidFields_volume_range:
  assumes "length (volume q) = q_w q * q_h q"
      and "bodies = [] \<Longrightarrow> \<forall>v\<in>set (volume q). volume_ok v"
  shows "(\<forall>v\<in>set (volume (fillSolidFields bodies q)). volume_ok v) \<and>
         (bodies \<noteq> [] \<longrightarrow> (\<forall>x<q_w q. \<forall>y<q_h q.
            volume (fillSolidFields bodies q) ! (x + y * q_w q) =
              (let p = phi (fillSolidFields bodies q); i = x + y * (q_w q + 1);
                   vol0 = 1 - occupancy (p ! i) (p ! (i + 1)) (p ! (i + q_w q + 1)) (p ! (i + q_w q + 2))
               in if vol0 < 0.01 then 0 else vol0))) \<and>
         (bodies \<noteq> [] \<longrightarrow> length (phi q) = (q_w q + 1) * (q_h q + 1) \<longrightarrow>
            (\<forall>ix\<le>q_w q. \<forall>iy\<le>q_h q.
               phi (fillSolidFields bodies q) ! (ix + iy * (q_w q + 1)) =
                 min_distance bodies ((real ix + q_ox q - 0.5) * q_hx q)
                                     ((real iy + q_oy q - 0.5) * q_hx q))) \<and>
         0 \<le> occupancy d11 d12 d21 d22 \<and> occupancy d11 d12 d21 d22 \<le> 1 \<and>
         fillSolidFields [] q = q \<and>
         volume (FluidQuantity_new w h ox oy hx) = replicate (w * h) 1"
proof -
  have r: "\<forall>v\<in>set (volume (fillSolidFields bodies q)). volume_ok v"
  proof (cases "bodies = []")
    case True
    then show ?thesis using assms(2) by (simp add: fillSolidFields_def)
  next
    case False
    let ?q1 = "q\<lparr>phi := foldl (fillSolidFields_phi bodies q) (phi q)
                          (grid_cells (q_w q + 1) (q_h q + 1))\<rparr>"
    have e: "fillSolidFields bodies q =
               foldl (fillSolidFields_cell bodies) ?q1 (grid_cells (q_w q) (q_h q))"
      using False by (simp add: fillSolidFields_def Let_def)
    have "volume_ok (volume (fillSolidFields bodies q) ! i)"
      if "i < length (volume (fillSolidFields bodies q))" for i
    proof -
      have i: "i < q_w q * q_h q"
        using that assms(1) by (simp add: e fillSolidFields_loop_fields)
      show ?thesis
        unfolding e
        using grid_cells_cover[OF i] i assms(1)
        by (intro fillSolidFields_loop_volume) simp_all
    qed
    then show ?thesis by (auto simp: in_set_conv_nth)
  qed
  have v: "bodies \<noteq> [] \<longrightarrow> (\<forall>x<q_w q. \<forall>y<q_h q.
            volume (fillSolidFields bodies q) ! (x + y * q_w q) =
              (let p = phi (fillSolidFields bodies q); i = x + y * (q_w q + 1);
                   vol0 = 1 - occupancy (p ! i) (p ! (i + 1)) (p ! (i + q_w q + 1)) (p ! (i + q_w q + 2))
               in if vol0 < 0.01 then 0 else vol0))"
    using fillSolidFields_volume_nth[OF _ assms(1)] by blast
  have p: "bodies \<noteq> [] \<longrightarrow> length (phi q) = (q_w q + 1) * (q_h q + 1) \<longrightarrow>
            (\<forall>ix\<le>q_w q. \<forall>iy\<le>q_h q.
               phi (fillSolidFields bodies q) ! (ix + iy * (q_w q + 1)) =
                 min_distance bodies ((real ix + q_ox q - 0.5) * q_hx q)
                                     ((real iy + q_oy q - 0.5) * q_hx q))"
    using fillSolidFields_phi_nth[of bodies q] by blast
  have o: "0 \<le> occupancy d11 d12 d21 d22 \<and> occupancy d11 d12 d21 d22 \<le> 1"
    by (rule occupancy_range)
  have i: "fillSolidFields [] q = q"
    by (simp add: fillSolidFields_def)
  have c: "volume (FluidQuantity_new w h ox oy hx) = replicate (w * h) 1"
    by (simp add: FluidQuantity_new_def)
  show ?thesis
    using r v p o i c by (intro conjI) blast+
qed

lemma moving_box_phi_field:
  "phi (fillSolidFields [moving_box] rest_d) =
     [-0.05, -0.05, 0.45, -0.05, -0.05, 0.45, 0.45, 0.45, length_c 0.45 0.45]"
  using moving_box_phi
  by (simp add: fillSolidFields_def Let_def fillSolidFields_loop_phi rest_grid_fields)

text \<open>
  The 2 by 2 grid with the box of side 0.6 centred at \<open>(0.25, 0.25)\<close>: the corner
  distances are \<open>-0.05\<close> at the four corners of cell \<open>(0, 0)\<close> and positive elsewhere.
  Cell \<open>(0, 0)\<close> is covered (fraction 0, clamped), the cells \<open>(1, 0)\<close> and \<open>(0, 1)\<close>
  keep nine tenths, and cell \<open>(1, 1)\<close> loses the corner triangle of area \<open>1/200\<close>.
\<close>

theorem fillSolidFields_volume_range_witness:
  "volume (fillSolidFields [moving_box] rest_d) ! 0 = 0 \<and>
   volume (fillSolidFields [moving_box] rest_d) ! 1 = 9/10 \<and>
   volume (fillSolidFields [moving_box] rest_d) ! 2 = 9/10 \<and>
   volume (fillSolidFields [moving_box] rest_d) ! 3 = 199/200 \<and>
   phi (fillSolidFields [moving_box] rest_d) ! 4 = distance moving_box 0.5 0.5 \<and>
   list_all volume_ok (volume (fillSolidFields [moving_box] rest_d))"
proof -
  have l: "length (volume rest_d) = q_w rest_d * q_h rest_d"
    by (simp add: rest_grid_fields)
  have h: "[moving_box] = [] \<Longrightarrow> \<forall>v\<in>set (volume rest_d). volume_ok v"
    by simp
  note T = fillSolidFields_volume_range[of rest_d "[moving_box]", OF l h]
  note Tv = T[THEN conjunct2, THEN conjunct1, rule_format]
  note Tp = T[THEN conjunct2, THEN conjunct2, THEN conjunct1, rule_format]
  have v0: "volume (fillSolidFields [moving_box] rest_d) ! 0 = 0"
    using Tv[of 0 0]
    by (simp add: rest_grid_fields moving_box_phi_field moving_box_occupancy Let_def)
  have v1: "volume (fillSolidFields [moving_box] rest_d) ! 1 = 9/10"
    using Tv[of 1 0]
    by (simp add: rest_grid_fields moving_box_phi_field moving_box_occupancy Let_def)
  have v2: "volume (fillSolidFields [moving_box] rest_d) ! 2 = 9/10"
    using Tv[of 0 1]
    by (simp add: rest_grid_fields moving_box_phi_field moving_box_occupancy Let_def
        numeral_2_eq_2[symmetric] numeral_3_eq_3[symmetric])
  have v3: "volume (fillSolidFields [moving_box] rest_d) ! 3 = 199/200"
    using Tv[of 1 1]
    by (simp add: rest_grid_fields moving_box_phi_field moving_box_occupancy Let_def
        numeral_2_eq_2[symmetric] numeral_3_eq_3[symmetric])
  have p4: "phi (fillSolidFields [moving_box] rest_d) ! 4 = distance moving_box 0.5 0.5"
    using Tp[of 1 1]
    by (simp add: rest_grid_fields min_distance_single)
  have a: "list_all volume_ok (volume (fillSolidFields [moving_box] rest_d))"
    using T[THEN conjunct1] by (simp add: list_all_iff)
  show ?thesis
    using v0 v1 v2 v3 p4 a by blast
qed

subsection \<open>The pure PIC round trip in binary64\<close>

lemma pow2_powr: "pow2 e = 2 powr of_int e"
proof (cases "0 \<le> e")
  case True
  then have "(2::real) powr of_int e = 2 powr real (nat e)" by simp
  also have "\<dots> = 2 ^ nat e" by (simp add: powr_realpow)
  finally show ?thesis using True by (simp add: pow2_def)
next
  case False
  then have "(2::real) powr of_int e = 2 powr (- real (nat (- e)))" by simp
  also have "\<dots> = 1 / 2 powr real (nat (- e))" by (simp only: powr_minus_divide)
  also have "\<dots> = 1 / 2 ^ nat (- e)" by (simp add: powr_realpow)
  finally show ?thesis using False by (simp add: pow2_def)
qed

lemma floor_log2:
  assumes "pow2 k \<le> x" "x < pow2 (k + 1)"
  shows "\<lfloor>log 2 x\<rfloor> = k"
proof -
  have p: "0 < x" using assms(1) unfolding pow2_powr by (smt (verit) powr_gt_zero)
  have "of_int k \<le> log 2 x"
    using assms(1) p unfolding pow2_powr by (simp add: le_log_iff)
  moreover have "log 2 x < of_int (k + 1)"
    using assms(2) p unfolding pow2_powr by (simp add: log_less_iff)
  ultimately show ?thesis
    by (intro floor_unique) simp_all
qed

lemma binary64_normal:
  assumes "pow2 k \<le> \<bar>x\<bar>" "\<bar>x\<bar> < pow2 (k + 1)" "-1022 \<le> k"
  shows "binary64 x = of_int (round_half_even (x / pow2 (k - 52))) * pow2 (k - 52)"
proof -
  have "0 < pow2 k" unfolding pow2_powr by simp
  then have "x \<noteq> 0" using assms(1) by auto
  then show ?thesis
    using assms(3) by (simp add: binary64_def floor_log2[OF assms(1,2)] Let_def max_def)
qed

lemma binary64_values:
  "binary64 0 = 0" "binary64 (1/4) = 1/4" "binary64 1 = 1"
  "binary64 (1/2^60 - 1) = -1"
proof -
  show "binary64 0 = 0" by (simp add: binary64_def)
  show "binary64 (1/4) = 1/4"
    by (subst binary64_normal[where k = "-2"]) (simp_all add: round_half_even_def Let_def pow2_def)
  show "binary64 1 = 1"
    by (subst binary64_normal[where k = 0]) (simp_all add: round_half_even_def Let_def pow2_def)
  show "binary64 (1/2^60 - 1) = -1"
    by (subst binary64_normal[where k = "-1"]) (simp_all add: round_half_even_def Let_def pow2_def)
qed


lemma lerp_copy: "lerp (copy q) x y = lerp q x y"
  by (simp add: lerp_def lerp_coords_def at_c_def idx_def copy_def)

lemma binary64_one_step:
  assumes "list_all (\<lambda>x. binary64 x = x) s"
  shows "s[i := binary64 (s ! i - binary64 (binary64 (1 - 1) * c))] = s"
        "s[i := binary64 (s ! i + binary64 (binary64 (1 - 1) * c))] = s"
proof -
  have "s[i := binary64 (s ! i)] = s"
  proof (cases "i < length s")
    case True
    then have "binary64 (s ! i) = s ! i"
      using assms by (simp add: list_all_length)
    then show ?thesis by simp
  next
    case False
    then show ?thesis by (intro list_update_beyond) simp
  qed
  then show "s[i := binary64 (s ! i - binary64 (binary64 (1 - 1) * c))] = s"
            "s[i := binary64 (s ! i + binary64 (binary64 (1 - 1) * c))] = s"
    by (simp_all add: binary64_values)
qed

lemma diff_binary64_one:
  assumes "list_all (\<lambda>x. binary64 x = x) (src q)"
  shows "diff_binary64 1 q = q" "undiff_binary64 1 q = q"
proof -
  have "foldl (\<lambda>s i. s[i := binary64 (s ! i - binary64 (binary64 (1 - 1) * old q ! i))])
          (src q) [0..<q_w q * q_h q] = src q"
    by (rule foldl_id) (rule binary64_one_step(1)[OF assms])
  then show "diff_binary64 1 q = q" by (simp add: diff_binary64_def)
  have "foldl (\<lambda>s i. s[i := binary64 (s ! i + binary64 (binary64 (1 - 1) * old q ! i))])
          (src q) [0..<q_w q * q_h q] = src q"
    by (rule foldl_id) (rule binary64_one_step(2)[OF assms])
  then show "undiff_binary64 1 q = q" by (simp add: undiff_binary64_def)
qed

text \<open>
  Claim C8. With the blending factor 1 and grids whose stored values are doubles, the
  sequence \<open>copy; diff(1); gridToParticles(1); undiff(1)\<close> leaves the \<open>src\<close> array of every
  grid as it was, rounding included: both loops add or subtract the product of
  \<open>1.0 - 1.0\<close> and the snapshot. After \<open>gridToParticles(1)\<close> the property of every
  active particle for every registered quantity is the value of \<open>lerp\<close> of that grid at
  the position of the particle. The pool has one property array per grid, each long
  enough for the active particles.
\<close>

theorem pic_round_trip:
  assumes "length (properties p) = length qs"
      and "\<forall>t<length qs. particleCount p \<le> length (properties p ! t)"
      and "\<forall>q\<in>set qs. list_all (\<lambda>x. binary64 x = x) (src q)"
  shows "map (\<lambda>q. src (undiff_binary64 1 (diff_binary64 1 (copy q)))) qs = map src qs \<and>
         (\<forall>t<length qs. \<forall>i<particleCount p.
            properties (gridToParticles 1 (map (\<lambda>q. diff_binary64 1 (copy q)) qs) p) ! t ! i =
              lerp (qs ! t) (posX p ! i) (posY p ! i) \<and>
            lerp (undiff_binary64 1 (diff_binary64 1 (copy (qs ! t)))) (posX p ! i) (posY p ! i) =
              lerp (qs ! t) (posX p ! i) (posY p ! i))"
proof -
  have c: "diff_binary64 1 (copy q) = copy q" "undiff_binary64 1 (copy q) = copy q"
    if "q \<in> set qs" for q
  proof -
    have "list_all (\<lambda>x. binary64 x = x) (src (copy q))"
      using assms(3) that by (simp add: copy_def)
    then show "diff_binary64 1 (copy q) = copy q" "undiff_binary64 1 (copy q) = copy q"
      by (rule diff_binary64_one)+
  qed
  have m: "map (\<lambda>q. diff_binary64 1 (copy q)) qs = map copy qs"
    using c(1) by simp
  have a: "map (\<lambda>q. src (undiff_binary64 1 (diff_binary64 1 (copy q)))) qs = map src qs"
    using c by (simp add: copy_def)
  have b: "properties (gridToParticles 1 (map (\<lambda>q. diff_binary64 1 (copy q)) qs) p) ! t ! i =
             lerp (qs ! t) (posX p ! i) (posY p ! i)"
    if "t < length qs" "i < particleCount p" for t i
  proof -
    have "i < length (properties p ! t)"
      using assms(2) that by fastforce
    then show ?thesis
      using that assms(1)
      by (simp add: m gridToParticles_def gridToParticles_outer_nth lerp_copy)
  qed
  have d: "lerp (undiff_binary64 1 (diff_binary64 1 (copy (qs ! t)))) x y = lerp (qs ! t) x y"
    if "t < length qs" for t x y
    using c[of "qs ! t"] that by (simp add: lerp_copy)
  show ?thesis
    using a b d by simp
qed

text \<open>
  A 2 by 2 grid holding \<open>1/4, 1, 0, 1/4\<close> and one particle at \<open>(0.7, 0.3)\<close> whose
  property was 5.
\<close>

theorem pic_round_trip_witness:
  "src (undiff_binary64 1 (diff_binary64 1
        (copy ((FluidQuantity_new 2 2 0.5 0.5 0.5)\<lparr>src := [1/4, 1, 0, 1/4]\<rparr>)))) = [1/4, 1, 0, 1/4] \<and>
   properties (gridToParticles 1
      (map (\<lambda>q. diff_binary64 1 (copy q)) [(FluidQuantity_new 2 2 0.5 0.5 0.5)\<lparr>src := [1/4, 1, 0, 1/4]\<rparr>])
      \<lparr>particleCount = 1, maxParticles = 48, p_w = 2, p_h = 2, p_hx = 0.5, p_bodies = [],
        weight = [], counts = [], posX = [0.7], posY = [0.3], properties = [[5]],
        seed = 0\<rparr>) ! 0 ! 0 =
     lerp ((FluidQuantity_new 2 2 0.5 0.5 0.5)\<lparr>src := [1/4, 1, 0, 1/4]\<rparr>) 0.7 0.3"
  using pic_round_trip[of
      "\<lparr>particleCount = 1, maxParticles = 48, p_w = 2, p_h = 2, p_hx = 0.5, p_bodies = [],
        weight = [], counts = [], posX = [0.7], posY = [0.3], properties = [[5]],
        seed = 0\<rparr>" "[(FluidQuantity_new 2 2 0.5 0.5 0.5)\<lparr>src := [1/4, 1, 0, 1/4]\<rparr>]"]
  by (simp add: binary64_values)

text \<open>
  One cell holding \<open>2^-60\<close> with the snapshot 4 and the blending factor 0.75, all of
  them doubles. \<open>diff\<close> stores the double nearest to \<open>2^-60 - 1\<close>, which is \<open>-1\<close>, and
  \<open>undiff\<close> then stores \<open>-1 + 1 = 0\<close>: the value \<open>2^-60\<close> is not restored.
\<close>

theorem undiff_not_exact_counterexample:
  "src (undiff_binary64 0.75 (diff_binary64 0.75
        ((FluidQuantity_new 1 1 0.5 0.5 1)\<lparr>src := [1/2^60], old := [4]\<rparr>))) = [0] \<and>
   src ((FluidQuantity_new 1 1 0.5 0.5 1)\<lparr>src := [1/2^60], old := [4]\<rparr>) = [1/2^60] \<and>
   binary64 (1/2^60) = 1/2^60 \<and> binary64 4 = 4 \<and> binary64 0.75 = 0.75"
proof -
  have a: "binary64 (1 - 0.75) = 1/4"
    using binary64_values(2) by simp
  have r: "binary64 (1/2^60) = 1/2^60" "binary64 4 = 4" "binary64 0.75 = 0.75"
    by (subst binary64_normal[where k = "-60"], simp_all add: round_half_even_def Let_def pow2_def,
        subst binary64_normal[where k = 2], simp_all add: round_half_even_def Let_def pow2_def,
        subst binary64_normal[where k = "-1"], simp_all add: round_half_even_def Let_def pow2_def)
  have "src (undiff_binary64 0.75 (diff_binary64 0.75
        ((FluidQuantity_new 1 1 0.5 0.5 1)\<lparr>src := [1/2^60], old := [4]\<rparr>))) = [0]"
    using binary64_values
    by (simp add: undiff_binary64_def diff_binary64_def FluidQuantity_new_def a)
  then show ?thesis
    using r by (simp add: FluidQuantity_new_def)
qed

end
